theory Spec2Isabelle
  imports Complex_Main "HOL-Library.AList"
begin

section \<open>Values, errors and frames\<close>

text \<open>
  The fast-file processing engine (class \<open>fast_processing_engine\<close>) works on pandas
  data frames.  Every exception of the Python code is a value of \<open>error\<close>; a method that
  may raise returns \<open>error + 'a\<close> with \<open>Inl\<close> for the exception.
  \<open>FilenameFormatError\<close> is the exception named by the specification of the file index;
  no statement of the source raises it.
\<close>

datatype error =
    IndexError | KeyError | ValueError | TypeError | UnboundLocalError
  | FileNotFoundError | InvalidIndexError | FilenameFormatError

text \<open>
  A time stamp is the number of milliseconds since 1970-01-01 00:00, a time delta a number
  of milliseconds.  A cell of a frame is missing (\<open>NaN\<close>), a float64 number (modelled as a
  real number) or a time stamp.
\<close>

datatype cell = NaN | Num real | Stamp int

text \<open>
  A data frame: the row index (time stamps after \<open>set_index('TIMESTAMP')\<close>, the positions
  \<open>0, 1, ...\<close> of the default index before) and the columns in order, each a label with the
  values of its rows.  Labels may repeat, as in pandas.
\<close>

record frame =
  index :: "int list"
  cols :: "(string \<times> cell list) list"

definition columns :: "frame \<Rightarrow> string list" where
  "columns df = map fst (cols df)"

definition nrows :: "frame \<Rightarrow> nat" where
  "nrows df = length (index df)"

text \<open>\<open>df.reindex(columns=labels, fill_value=fill)\<close>: the frame gets exactly the requested
  labels; a label the frame has keeps its values, any other is filled.  pandas refuses to
  reindex an axis that has duplicate labels.\<close>

definition reindex_columns :: "string list \<Rightarrow> cell \<Rightarrow> frame \<Rightarrow> error + frame" where
  "reindex_columns labels fill df =
     (if distinct (columns df)
      then Inr (df\<lparr>cols := map (\<lambda>l. (l, case map_of (cols df) l of
                                             Some d \<Rightarrow> d
                                           | None \<Rightarrow> replicate (nrows df) fill)) labels\<rparr>)
      else Inl ValueError)"

text \<open>\<open>df.rename(columns=d, inplace=True)\<close>: labels that are keys of \<open>d\<close> are replaced.\<close>

definition rename_label :: "(string \<times> string) list \<Rightarrow> string \<Rightarrow> string" where
  "rename_label d l = (case map_of d l of Some n \<Rightarrow> n | None \<Rightarrow> l)"

definition rename_columns :: "(string \<times> string) list \<Rightarrow> frame \<Rightarrow> frame" where
  "rename_columns d df = df\<lparr>cols := map (\<lambda>c. (rename_label d (fst c), snd c)) (cols df)\<rparr>"

text \<open>\<open>df[labels]\<close> with a list of labels: KeyError when a label is not a column; otherwise,
  for each requested label in turn, every column that carries it.\<close>

definition getitem_list :: "string list \<Rightarrow> frame \<Rightarrow> error + frame" where
  "getitem_list labels df =
     (if set labels \<subseteq> set (columns df)
      then Inr (df\<lparr>cols := concat (map (\<lambda>l. filter (\<lambda>c. fst c = l) (cols df)) labels)\<rparr>)
      else Inl KeyError)"

text \<open>\<open>df.loc[:, df.columns != label]\<close>.\<close>

definition drop_label :: "string \<Rightarrow> frame \<Rightarrow> frame" where
  "drop_label l df = df\<lparr>cols := filter (\<lambda>c. fst c \<noteq> l) (cols df)\<rparr>"

fun stamp_of :: "cell \<Rightarrow> int option" where
  "stamp_of (Stamp t) = Some t"
| "stamp_of _ = None"

text \<open>\<open>df.set_index(label)\<close>: KeyError when the label is not a column.  The index of the
  model holds time stamps only: a duplicated label, or a cell that is not a time stamp, is
  reported as ValueError (the program only sets the index from a converted TIMESTAMP
  column).\<close>

definition set_index :: "string \<Rightarrow> frame \<Rightarrow> error + frame" where
  "set_index l df =
     (case filter (\<lambda>c. fst c = l) (cols df) of
        [] \<Rightarrow> Inl KeyError
      | [c] \<Rightarrow> (case those (map stamp_of (snd c)) of
                 None \<Rightarrow> Inl ValueError
               | Some ts \<Rightarrow> Inr \<lparr>index = ts, cols = filter (\<lambda>c. fst c \<noteq> l) (cols df)\<rparr>)
      | _ \<Rightarrow> Inl ValueError)"

text \<open>\<open>pd.date_range(start, periods=n, freq=step)\<close>.\<close>

definition date_range :: "int \<Rightarrow> nat \<Rightarrow> int \<Rightarrow> int list" where
  "date_range start periods freq = map (\<lambda>i. start + int i * freq) [0..<periods]"

section \<open>Strings\<close>

text \<open>\<open>s.split(sep)\<close> of Python for a separator of at least one character.\<close>

function split_acc :: "string \<Rightarrow> string \<Rightarrow> string \<Rightarrow> string list" where
  "split_acc sep acc [] = [rev acc]"
| "split_acc sep acc (c # cs) =
     (if sep \<noteq> [] \<and> take (length sep) (c # cs) = sep
      then rev acc # split_acc sep [] (drop (length sep - 1) cs)
      else split_acc sep (c # acc) cs)"
  by pat_completeness auto
termination
  by (relation "measure (\<lambda>(sep, acc, s). length s)") auto

definition py_split :: "string \<Rightarrow> string \<Rightarrow> string list" where
  "py_split sep s = split_acc sep [] s"

text \<open>\<open>re.split\<close> with a pattern that is an alternative of single characters.\<close>

fun split_chars_acc :: "char list \<Rightarrow> string \<Rightarrow> string \<Rightarrow> string list" where
  "split_chars_acc seps acc [] = [rev acc]"
| "split_chars_acc seps acc (c # cs) =
     (if c \<in> set seps then rev acc # split_chars_acc seps [] cs
      else split_chars_acc seps (c # acc) cs)"

definition re_split_chars :: "char list \<Rightarrow> string \<Rightarrow> string list" where
  "re_split_chars seps s = split_chars_acc seps [] s"

text \<open>\<open>re.search\<close> with a pattern that is an alternative of literal strings: the leftmost
  position where an alternative matches, the alternatives tried in order; the result is the
  matched text.\<close>

fun re_search :: "string list \<Rightarrow> string \<Rightarrow> string option" where
  "re_search alts [] = find (\<lambda>a. a = []) alts"
| "re_search alts (c # cs) =
     (case find (\<lambda>a. take (length a) (c # cs) = a) alts of
        Some a \<Rightarrow> Some a
      | None \<Rightarrow> re_search alts cs)"

text \<open>\<open>Path(fn).name\<close>: the final component of a path.\<close>

definition path_name :: "string \<Rightarrow> string" where
  "path_name fn = rev (takeWhile (\<lambda>c. c \<noteq> CHR ''/'') (rev fn))"

text \<open>\<open>sub in s\<close> for strings.\<close>

fun contains_str :: "string \<Rightarrow> string \<Rightarrow> bool" where
  "contains_str sub [] = (sub = [])"
| "contains_str sub (c # cs) = (take (length sub) (c # cs) = sub \<or> contains_str sub cs)"

section \<open>The engine's configuration\<close>

record engine =
  site_names :: "string list"
  acq_freq :: int
  file_length :: int
  start_time :: int
  end_time :: int

definition acq_period :: "engine \<Rightarrow> int" where
  "acq_period self = 1000 div acq_freq self"

definition n_records :: "engine \<Rightarrow> int" where
  "n_records self = file_length self * acq_freq self * 60"

text \<open>The final headers to use, grouped by site name (the dict \<open>final_headers\<close> of the
  constructor).\<close>

definition final_headers :: "(string \<times> string list) list" where
  "final_headers =
    [(''NF17'',
       [''TIMESTAMP'', ''RECORD'',
        ''Ux_CSAT3_NF17'', ''Uy_CSAT3_NF17'', ''Uz_CSAT3_NF17'', ''Ts_CSAT3_NF17'',
        ''Ux_CSAT3_NF7'', ''Uy_CSAT3_NF7'', ''Uz_CSAT3_NF7'', ''Ts_CSAT3_NF7'',
        ''CO2_LI7500_NF17'', ''H2O_LI7500_NF17'', ''PCELL_LI7500_NF17'', ''TCELL_LI7500_NF17'',
        ''DIAG_CSAT3_NF17'', ''flag_CSAT3_NF17'', ''DIAG_CSAT3_NF7'', ''flag_CSAT3_NF7'',
        ''DIAG_LI7500_NF17'']),
     (''NF3'',
       [''TIMESTAMP'', ''RECORD'',
        ''Ux_CSAT3B_NF3'', ''Uy_CSAT3B_NF3'', ''Uz_CSAT3B_NF3'', ''Ts_CSAT3B_NF3'',
        ''CO2_LI7500_NF3'', ''H2O_LI7500_NF3'', ''PCELL_LI7500_NF3'', ''TCELL_LI7500_NF3'',
        ''DIAG_CSAT3B_NF3'', ''flag_CSAT3B_NF3'', ''DIAG_LI7500_NF3'']),
     (''SF4'',
       [''TIMESTAMP'', ''RECORD'',
        ''Ux_SON_SF4'', ''Uy_SON_SF4'', ''Uz_SON_SF4'', ''Ts_SON_SF4'',
        ''CO2_IRGA_SF4'', ''H2O_IRGA_SF4'', ''PCELL_IRGA_SF4'', ''TCELL_IRGA_SF4'',
        ''DIAG_SON_SF4'', ''flag_SON_SF4'', ''DIAG_IRGA_SF4'']),
     (''SF7'',
       [''TIMESTAMP'', ''RECORD'',
        ''Ux_CSAT3B_SF7'', ''Uy_CSAT3B_SF7'', ''Uz_CSAT3B_SF7'', ''Ts_CSAT3B_SF7'',
        ''CO2_LI7500_SF7'', ''H2O_LI7500_SF7'', ''PCELL_LI7500_SF7'', ''TCELL_LI7500_SF7'',
        ''DIAG_CSAT3B_SF7'', ''flag_CSAT3B_SF7'', ''DIAG_LI7500_SF7'']),
     (''UF3'',
       [''TIMESTAMP'', ''RECORD'',
        ''Ux_SON_UF3'', ''Uy_SON_UF3'', ''Uz_SON_UF3'', ''Ts_SON_UF3'',
        ''CO2_IRGA_UF3'', ''H2O_IRGA_UF3'', ''PCELL_IRGA_UF3'', ''TCELL_IRGA_UF3'',
        ''DIAG_SON_UF3'', ''flag_SON_UF3'', ''DIAG_IRGA_UF3''])]"

text \<open>\<open>self.site_info[site]['final_header']\<close>: the sites of the run are the keys of
  \<open>site_info\<close>; the constructor stored \<open>final_headers[site]\<close> for each.\<close>

definition final_header :: "engine \<Rightarrow> string \<Rightarrow> error + string list" where
  "final_header self site =
     (if site \<in> set (site_names self)
      then (case map_of final_headers site of Some h \<Rightarrow> Inr h | None \<Rightarrow> Inl KeyError)
      else Inl KeyError)"

section \<open>File names\<close>

text \<open>
  \<open>get_timestamp_from_fn\<close>.  The parser \<open>pd.to_datetime(s, format="%Y%m%d%H%M")\<close> of pandas
  is a parameter: \<open>None\<close> is its ValueError.
\<close>

definition get_timestamp_from_fn :: "(string \<Rightarrow> int option) \<Rightarrow> string \<Rightarrow> error + int" where
  "get_timestamp_from_fn to_datetime fn =
     (case py_split ''Hz'' (path_name fn) of
        _ # file_id # _ \<Rightarrow>
          (let file_start_str = concat (butlast (tl (re_split_chars ''_.'' file_id)))
           in case to_datetime file_start_str of
                None \<Rightarrow> Inl ValueError
              | Some file_start_ts \<Rightarrow> Inr file_start_ts)
      | _ \<Rightarrow> Inl IndexError)"

text \<open>The loop of \<open>find_fast_files\<close> that reads the time stamps of the files found for one
  site (keeping those inside the run's window) and sorts them.\<close>

fun file_tss_loop :: "(string \<Rightarrow> int option) \<Rightarrow> engine \<Rightarrow> string list \<Rightarrow> error + int list" where
  "file_tss_loop to_datetime self [] = Inr []"
| "file_tss_loop to_datetime self (fn # fns) =
     (case get_timestamp_from_fn to_datetime fn of
        Inl e \<Rightarrow> Inl e
      | Inr fts \<Rightarrow>
          if fts \<ge> start_time self \<and> fts \<le> end_time self
          then (case get_timestamp_from_fn to_datetime fn of
                  Inl e \<Rightarrow> Inl e
                | Inr t \<Rightarrow> (case file_tss_loop to_datetime self fns of
                              Inl e \<Rightarrow> Inl e
                            | Inr file_tss \<Rightarrow> Inr (t # file_tss)))
          else file_tss_loop to_datetime self fns)"

definition find_file_tss :: "(string \<Rightarrow> int option) \<Rightarrow> engine \<Rightarrow> string list \<Rightarrow> error + int list" where
  "find_file_tss to_datetime self fns =
     (case file_tss_loop to_datetime self fns of
        Inl e \<Rightarrow> Inl e
      | Inr file_tss \<Rightarrow> Inr (sort file_tss))"

text \<open>
  An instance of the parser for running examples: twelve digits \<open>YYYYMMDDHHMM\<close> that form a
  calendar date and a minute of the day (pandas accepts these), anything else refused.
\<close>

definition digit_val :: "char \<Rightarrow> int option" where
  "digit_val c =
     (let n = (of_char c :: nat)
      in if 48 \<le> n \<and> n \<le> 57 then Some (int n - 48) else None)"

definition number_of :: "string \<Rightarrow> int option" where
  "number_of s =
     (case those (map digit_val s) of
        None \<Rightarrow> None
      | Some ds \<Rightarrow> Some (foldl (\<lambda>a d. 10 * a + d) 0 ds))"

definition days_in_month :: "int \<Rightarrow> int \<Rightarrow> int" where
  "days_in_month y m =
     (if m = 2 then (if y mod 4 = 0 \<and> (y mod 100 \<noteq> 0 \<or> y mod 400 = 0) then 29 else 28)
      else if m \<in> {4, 6, 9, 11} then 30 else 31)"

definition days_from_civil :: "int \<Rightarrow> int \<Rightarrow> int \<Rightarrow> int" where
  "days_from_civil y0 m d =
     (let y = (if m \<le> 2 then y0 - 1 else y0);
          era = y div 400;
          yoe = y - era * 400;
          doy = (153 * (if m > 2 then m - 3 else m + 9) + 2) div 5 + d - 1;
          doe = yoe * 365 + yoe div 4 - yoe div 100 + doy
      in era * 146097 + doe - 719468)"

definition to_datetime_ymdhm :: "string \<Rightarrow> int option" where
  "to_datetime_ymdhm s =
     (if length s \<noteq> 12 then None
      else case (number_of (take 4 s), number_of (take 2 (drop 4 s)), number_of (take 2 (drop 6 s)),
                 number_of (take 2 (drop 8 s)), number_of (take 2 (drop 10 s))) of
             (Some y, Some m, Some d, Some h, Some mi) \<Rightarrow>
               if 1 \<le> y \<and> 1 \<le> m \<and> m \<le> 12 \<and> 1 \<le> d \<and> d \<le> days_in_month y m \<and> h < 24 \<and> mi < 60
               then Some ((days_from_civil y m d * 1440 + h * 60 + mi) * 60000)
               else None
           | _ \<Rightarrow> None)"

section \<open>The schema harmonizer\<close>

text \<open>\<open>fts.date()\<close> as a day number; \<open>pd.to_datetime("2019-05-19")\<close> is
  \<open>days_from_civil 2019 5 19\<close>.  A date is compared with a time stamp as with the
  midnight of that day (pandas 1.x).\<close>

definition date_of :: "int \<Rightarrow> int" where
  "date_of fts = fts div 86400000"

text \<open>\<open>make_empty\<close>: two rows, 100 ms apart, starting one acquisition period after \<open>fts\<close>,
  every column of the final header missing, TIMESTAMP as the index.\<close>

definition make_empty :: "engine \<Rightarrow> int \<Rightarrow> string \<Rightarrow> error + frame" where
  "make_empty self fts site =
     (case final_header self site of
        Inl e \<Rightarrow> Inl e
      | Inr hdr \<Rightarrow>
          (case reindex_columns hdr NaN
                  \<lparr>index = [0, 1],
                   cols = [(''TIMESTAMP'', map Stamp (date_range (fts + acq_period self) 2 100))]\<rparr> of
             Inl e \<Rightarrow> Inl e
           | Inr df \<Rightarrow> set_index ''TIMESTAMP'' df))"

text \<open>The outcome of the \<open>if\<close>/\<open>elif\<close> chain of \<open>reorder_headers\<close> for a site and the date of
  the file: the columns to add and the renaming scheme, or the maintenance day, or no
  branch taken (the two variables stay unassigned).\<close>

datatype rule = Rule "string list" "(string \<times> string) list" | Maintenance | NoRule

definition header_rule :: "string \<Rightarrow> int \<Rightarrow> rule" where
  "header_rule site d =
    (if site = ''NF17'' then
       (if d < days_from_civil 2019 5 19 then
          Rule [''PCELL_LI7500_NF17'', ''DIAG_CSAT3_NF17'', ''DIAG_CSAT3_NF7'', ''flag_CSAT3_NF17'',
                ''flag_CSAT3_NF7'', ''TCELL_LI7500_NF17'']
               [(''Ux_CSAT3_17m'', ''Ux_CSAT3_NF17''), (''Uy_CSAT3_17m'', ''Uy_CSAT3_NF17''),
                (''Uz_CSAT3_17m'', ''Uz_CSAT3_NF17''), (''Ts_CSAT3_17m'', ''Ts_CSAT3_NF17''),
                (''Ux_CSAT3_7m'', ''Ux_CSAT3_NF7''), (''Uy_CSAT3_7m'', ''Uy_CSAT3_NF7''),
                (''Uz_CSAT3_7m'', ''Uz_CSAT3_NF7''), (''Ts_CSAT3_7m'', ''Ts_CSAT3_NF7''),
                (''rho_c_LI7500'', ''CO2_LI7500_NF17''), (''rho_v_LI7500'', ''H2O_LI7500_NF17''),
                (''DIAG_LI7500'', ''DIAG_LI7500_NF17'')]
        else if d > days_from_civil 2019 5 19 then
          Rule [''DIAG_CSAT3_NF17'', ''DIAG_CSAT3_NF7'', ''flag_CSAT3_NF17'', ''flag_CSAT3_NF7'',
                ''TCELL_LI7500_NF17'']
               [(''Ux_CSAT3_17m'', ''Ux_CSAT3_NF17''), (''Uy_CSAT3_17m'', ''Uy_CSAT3_NF17''),
                (''Uz_CSAT3_17m'', ''Uz_CSAT3_NF17''), (''Ts_CSAT3_17m'', ''Ts_CSAT3_NF17''),
                (''Ux_CSAT3_7m'', ''Ux_CSAT3_NF7''), (''Uy_CSAT3_7m'', ''Uy_CSAT3_NF7''),
                (''Uz_CSAT3_7m'', ''Uz_CSAT3_NF7''), (''Ts_CSAT3_7m'', ''Ts_CSAT3_NF7''),
                (''rho_c_LI7500'', ''CO2_LI7500_NF17''), (''rho_v_LI7500'', ''H2O_LI7500_NF17''),
                (''P_LI7500'', ''PCELL_LI7500_NF17''), (''DIAG_LI7500'', ''DIAG_LI7500_NF17'')]
        else if d = days_from_civil 2019 5 19 then Maintenance
        else NoRule)
     else if site = ''NF3'' then
       (if d < days_from_civil 2019 5 19 then
          Rule [''PCELL_LI7500_NF3'', ''TCELL_LI7500_NF3'', ''flag_CSAT3B_NF3'']
               [(''Ux_CSAT3B'', ''Ux_CSAT3B_NF3''), (''Uy_CSAT3B'', ''Uy_CSAT3B_NF3''),
                (''Uz_CSAT3B'', ''Uz_CSAT3B_NF3''), (''Ts_CSAT3B'', ''Ts_CSAT3B_NF3''),
                (''rho_c_LI7500'', ''CO2_LI7500_NF3''), (''rho_cv_LI7500'', ''H2O_LI7500_NF3''),
                (''DIAG_CSAT3B'', ''DIAG_CSAT3B_NF3''), (''DIAG_LI7500'', ''DIAG_LI7500_NF3'')]
        else if d > days_from_civil 2019 5 19 then
          Rule [''DIAG_CSAT3B_NF3'', ''flag_CSAT3B_NF3'', ''TCELL_LI7500_NF3'']
               [(''Ux_CSAT3B'', ''Ux_CSAT3B_NF3''), (''Uy_CSAT3B'', ''Uy_CSAT3B_NF3''),
                (''Uz_CSAT3B'', ''Uz_CSAT3B_NF3''), (''Ts_CSAT3B'', ''Ts_CSAT3B_NF3''),
                (''rho_c_LI7500'', ''CO2_LI7500_NF3''), (''rho_v_LI7500'', ''H2O_LI7500_NF3''),
                (''P_LI7500'', ''PCELL_LI7500_NF3''), (''DIAG_LI7500'', ''DIAG_LI7500_NF3'')]
        else if d = days_from_civil 2019 5 19 then Maintenance
        else NoRule)
     else if site = ''SF4'' then
       (if d < days_from_civil 2100 11 19 then
          Rule [''flag_SON_SF4'']
               [(''Ux'', ''Ux_SON_SF4''), (''Uy'', ''Uy_SON_SF4''), (''Uz'', ''Uz_SON_SF4''),
                (''Ts'', ''Ts_SON_SF4''), (''diag_sonic'', ''DIAG_SON_SF4''),
                (''CO2'', ''CO2_IRGA_SF4''), (''H2O'', ''H2O_IRGA_SF4''),
                (''diag_irga'', ''DIAG_IRGA_SF4''), (''cell_tmpr'', ''TCELL_IRGA_SF4''),
                (''cell_press'', ''PCELL_IRGA_SF4'')]
        else NoRule)
     else if site = ''SF7'' then
       (if d < days_from_civil 2019 5 19 then
          Rule [''PCELL_LI7500_SF7'', ''TCELL_LI7500_SF7'', ''flag_CSAT3B_SF7'']
               [(''Ux_CSAT3B'', ''Ux_CSAT3B_SF7''), (''Uy_CSAT3B'', ''Uy_CSAT3B_SF7''),
                (''Uz_CSAT3B'', ''Uz_CSAT3B_SF7''), (''Ts_CSAT3B'', ''Ts_CSAT3B_SF7''),
                (''rho_c_LI7500'', ''CO2_LI7500_SF7''), (''rho_v_LI7500'', ''H2O_LI7500_SF7''),
                (''DIAG_CSAT3B'', ''DIAG_CSAT3B_SF7''), (''DIAG_LI7500'', ''DIAG_LI7500_SF7'')]
        else if d > days_from_civil 2019 5 19 then
          Rule [''DIAG_CSAT3B_SF7'', ''flag_CSAT3B_SF7'', ''TCELL_LI7500_SF7'']
               [(''Ux_CSAT3B'', ''Ux_CSAT3B_SF7''), (''Uy_CSAT3B'', ''Uy_CSAT3B_SF7''),
                (''Uz_CSAT3B'', ''Uz_CSAT3B_SF7''), (''Ts_CSAT3B'', ''Ts_CSAT3B_SF7''),
                (''rho_c_LI7500'', ''CO2_LI7500_SF7''), (''rho_v_LI7500'', ''H2O_LI7500_SF7''),
                (''P_LI7500'', ''PCELL_LI7500_SF7''), (''DIAG_LI7500'', ''DIAG_LI7500_SF7'')]
        else if d = days_from_civil 2019 5 19 then Maintenance
        else NoRule)
     else if site = ''UF3'' then
       (if d > days_from_civil 2019 2 13 then
          Rule [''flag_SON_UF3'']
               [(''Ux'', ''Ux_SON_UF3''), (''Uy'', ''Uy_SON_UF3''), (''Uz'', ''Uz_SON_UF3''),
                (''Ts'', ''Ts_SON_UF3''), (''diag_sonic'', ''DIAG_SON_UF3''),
                (''CO2'', ''CO2_IRGA_UF3''), (''H2O'', ''H2O_IRGA_UF3''),
                (''diag_irga'', ''DIAG_IRGA_UF3''), (''cell_tmpr'', ''TCELL_IRGA_UF3''),
                (''cell_press'', ''PCELL_IRGA_UF3'')]
        else NoRule)
     else NoRule)"

text \<open>\<open>reorder_headers\<close>.  On the maintenance day the frame of \<open>make_empty\<close> is returned.
  With no branch taken, \<open>new_order\<close> is read first (KeyError for a site that is not
  configured) and then the unassigned \<open>cols_to_add\<close> (UnboundLocalError).  Otherwise the
  columns are added, renamed and selected in the final order.\<close>

definition reorder_headers :: "engine \<Rightarrow> string \<Rightarrow> int \<Rightarrow> frame \<Rightarrow> error + frame" where
  "reorder_headers self site fts df =
     (case header_rule site (date_of fts) of
        Maintenance \<Rightarrow> make_empty self fts site
      | NoRule \<Rightarrow>
          (case final_header self site of
             Inl e \<Rightarrow> Inl e
           | Inr new_order \<Rightarrow> Inl UnboundLocalError)
      | Rule cols_to_add renaming_dict \<Rightarrow>
          (case final_header self site of
             Inl e \<Rightarrow> Inl e
           | Inr new_order \<Rightarrow>
               (case reindex_columns (columns df @ cols_to_add) NaN df of
                  Inl e \<Rightarrow> Inl e
                | Inr df1 \<Rightarrow> getitem_list new_order (rename_columns renaming_dict df1))))"

section \<open>The diagnostic decoder\<close>

text \<open>
  The operators that the lambdas of \<open>diag_dict\<close> apply to their argument.  \<open>df.assign\<close> calls
  a callable with the whole frame, so the argument is a frame: pandas defines no \<open>>>\<close> on a
  frame (TypeError), \<open>&\<close> with an integer is refused by float64 and datetime64 columns
  (TypeError), and the truth value of a frame is ambiguous (ValueError).
\<close>

definition frame_rshift :: "frame \<Rightarrow> int \<Rightarrow> error + frame" where
  "frame_rshift x n = Inl TypeError"

definition frame_and :: "frame \<Rightarrow> int \<Rightarrow> error + frame" where
  "frame_and x n = (if cols x = [] then Inr x else Inl TypeError)"

definition frame_bool :: "frame \<Rightarrow> error + bool" where
  "frame_bool x = Inl ValueError"

definition int_bool :: "error + frame \<Rightarrow> error + int" where
  "int_bool r =
     (case r of
        Inl e \<Rightarrow> Inl e
      | Inr y \<Rightarrow> (case frame_bool y of Inl e \<Rightarrow> Inl e | Inr b \<Rightarrow> Inr (if b then 1 else 0)))"

text \<open>\<open>diag_dict\<close>: per instrument, the name of the flag column and the lambda computing it.\<close>

definition diag_dict :: "string \<Rightarrow> (string \<times> string \<times> (frame \<Rightarrow> error + int)) list" where
  "diag_dict site =
     [(''CSAT3'', ''flag_CSAT3_'' @ site, \<lambda>x. int_bool (frame_rshift x 12)),
      (''CSAT3B'', ''flag_CSAT3B_'' @ site, \<lambda>x. int_bool (frame_and x 351)),
      (''IRGA'', ''flag_IRGA_'' @ site, \<lambda>x. int_bool (Inr x)),
      (''SON'', ''flag_SON_'' @ site, \<lambda>x. int_bool (Inr x))]"

text \<open>\<open>df.assign(**{name: f})\<close>: the callable is applied to the frame and its (scalar) result
  becomes the column \<open>name\<close>, replacing a column of that name or added at the end.\<close>

definition assign :: "string \<Rightarrow> (frame \<Rightarrow> error + int) \<Rightarrow> frame \<Rightarrow> error + frame" where
  "assign name f df =
     (case f df of
        Inl e \<Rightarrow> Inl e
      | Inr v \<Rightarrow>
          Inr (df\<lparr>cols := (if name \<in> set (columns df)
                            then map (\<lambda>c. if fst c = name
                                           then (name, replicate (nrows df) (Num (of_int v)))
                                           else c) (cols df)
                            else cols df @ [(name, replicate (nrows df) (Num (of_int v)))])\<rparr>))"

text \<open>The statement \<open>pd.DataFrame.assign()\<close> that ends the body of the loop: the method is
  called on the class without an instance, which Python refuses (TypeError).\<close>

definition DataFrame_assign_unbound :: "error + unit" where
  "DataFrame_assign_unbound = Inl TypeError"

definition diag_patterns :: "string list" where
  "diag_patterns = [''DIAG_CSAT3_'', ''DIAG_CSAT3B'', ''DIAG_IRGA'', ''DIAG_SON'']"

text \<open>The loop of \<open>process_diagnostics\<close> over the column names of the frame it was given,
  for any table \<open>dd\<close> of lambdas.\<close>

fun diag_loop :: "(string \<times> string \<times> (frame \<Rightarrow> error + int)) list \<Rightarrow> string list \<Rightarrow> frame
                   \<Rightarrow> error + frame" where
  "diag_loop dd [] df = Inr df"
| "diag_loop dd (colname # rest) df =
     (case re_search diag_patterns colname of
        None \<Rightarrow> diag_loop dd rest df
      | Some m \<Rightarrow>
          (let instr0 = drop 5 m;
               instr = (if instr0 = ''CSAT3_'' then ''CSAT3'' else instr0)
           in case map_of dd instr of
                None \<Rightarrow> Inl KeyError
              | Some (flag, f) \<Rightarrow>
                  (case assign flag f df of
                     Inl e \<Rightarrow> Inl e
                   | Inr df' \<Rightarrow>
                       (case DataFrame_assign_unbound of
                          Inl e \<Rightarrow> Inl e
                        | Inr u \<Rightarrow> diag_loop dd rest df'))))"

definition process_diagnostics_with ::
  "(string \<times> string \<times> (frame \<Rightarrow> error + int)) list \<Rightarrow> frame \<Rightarrow> error + frame" where
  "process_diagnostics_with dd df = diag_loop dd (columns df) df"

definition process_diagnostics :: "frame \<Rightarrow> string \<Rightarrow> error + frame" where
  "process_diagnostics df site = process_diagnostics_with (diag_dict site) df"

section \<open>Raw files and the per-site state\<close>

text \<open>
  A converted raw file, as the engine reads it: the text that \<open>f.readline()\<close> returns for its
  first line (with the line end), and the table that \<open>csv.read_csv\<close> parses from it, its
  TIMESTAMP cells already as time stamps.  The file system is a table from paths to files.
\<close>

record raw_file =
  first_line :: string
  table :: frame

type_synonym file_store = "(string \<times> raw_file) list"

text \<open>
  An entry of a row of the metadata table: a time stamp, the path of the output file of the
  interval that starts at a time stamp (\<open>out_path / yyyy_mm_dd_hhMM.csv\<close>), the path of a raw
  file, or a string.
\<close>

datatype meta = MTime int | MOutPath int | MPath string | MStr string

text \<open>
  What the run keeps for one site and changes while it processes the intervals: the queues
  \<open>fns_temp\<close> and \<open>file_tss_temp\<close> of \<open>site_info[site]\<close>, the table \<open>rawfile_metadata\<close>, and the
  counter \<open>ifile[site]\<close>.
\<close>

record site_state =
  fns_temp :: "string list"
  file_tss_temp :: "int list"
  rawfile_metadata :: "meta list list"
  ifile :: nat

text \<open>\<open>metadata_template\<close> for one site: a table of twelve columns, one row of \<open>'none'\<close> for
  each file found.\<close>

definition metadata_columns :: "string list" where
  "metadata_columns =
     [''output_timestamp'', ''output_name'', ''input_timestamp'', ''input_name'',
      ''Encoding'', ''Station_name'', ''Datalogger_model'', ''Datalogger_serial_number'',
      ''Datalogger_OS_version'', ''Datalogger_program_name'', ''Datalogger_program_signature'',
      ''Table_name'']"

definition metadata_template :: "nat \<Rightarrow> meta list list" where
  "metadata_template n_files_converted = replicate n_files_converted (replicate 12 (MStr ''none''))"

text \<open>The separator \<^verbatim>\<open>","\<close> between the fields of the first line of a raw file.\<close>

definition field_separator :: string where
  "field_separator = [CHR 0x22, CHR '','', CHR 0x22]"

text \<open>\<open>update_metadata\<close>.  \<open>open(fn)\<close> fails for a missing file; \<open>.iloc[i] = row\<close> fails with
  IndexError when the table has no row \<open>i\<close> and with ValueError when the row has not as many
  entries as the table has columns.\<close>

definition update_metadata ::
  "file_store \<Rightarrow> int \<Rightarrow> int \<Rightarrow> string \<Rightarrow> site_state \<Rightarrow> error + site_state" where
  "update_metadata fs dfts ts fn e =
     (case map_of fs fn of
        None \<Rightarrow> Inl FileNotFoundError
      | Some f \<Rightarrow>
          (let metadata_row = [MTime dfts, MOutPath dfts, MTime ts, MPath fn]
                 @ map MStr (py_split field_separator (butlast (tl (first_line f))))
           in if \<not> ifile e < length (rawfile_metadata e) then Inl IndexError
              else if length metadata_row \<noteq> length metadata_columns then Inl ValueError
              else Inr (e\<lparr>rawfile_metadata := (rawfile_metadata e)[ifile e := metadata_row],
                          ifile := ifile e + 1\<rparr>)))"

section \<open>Processing one file\<close>

text \<open>\<open>rawdat['TIMESTAMP'] = pd.to_datetime(rawdat['TIMESTAMP'], format=...)\<close>: KeyError without
  the column; a cell that is not a time stamp does not convert (null time stamps are not
  modelled).\<close>

definition to_datetime_column :: "frame \<Rightarrow> error + frame" where
  "to_datetime_column df =
     (case filter (\<lambda>c. fst c = ''TIMESTAMP'') (cols df) of
        [] \<Rightarrow> Inl KeyError
      | [c] \<Rightarrow> (case those (map stamp_of (snd c)) of None \<Rightarrow> Inl ValueError | Some ts \<Rightarrow> Inr df)
      | _ \<Rightarrow> Inl ValueError)"

definition process_file :: "engine \<Rightarrow> file_store \<Rightarrow> string \<Rightarrow> string \<Rightarrow> int \<Rightarrow> error + frame" where
  "process_file self fs fn site ts =
     (case map_of fs fn of
        None \<Rightarrow> Inl FileNotFoundError
      | Some f \<Rightarrow>
          (case to_datetime_column (table f) of
             Inl e \<Rightarrow> Inl e
           | Inr rawdat \<Rightarrow>
               (case process_diagnostics rawdat site of
                  Inl e \<Rightarrow> Inl e
                | Inr rawdat \<Rightarrow>
                    (case reorder_headers self site ts rawdat of
                       Inl e \<Rightarrow> Inl e
                     | Inr rawdat \<Rightarrow>
                         (case set_index ''TIMESTAMP'' rawdat of
                            Inl e \<Rightarrow> Inl e
                          | Inr rawdat \<Rightarrow> Inr (drop_label ''RECORD'' rawdat))))))"

section \<open>Concatenation and merge\<close>

text \<open>\<open>pd.concat([a, b])\<close>: the rows of \<open>b\<close> after the rows of \<open>a\<close>.  With the same column
  list the columns are appended one by one; otherwise the labels of both frames must be
  unique, the columns of \<open>a\<close> come first, then the new ones of \<open>b\<close>, and what a frame lacks
  is missing.\<close>

definition concat_frames :: "frame \<Rightarrow> frame \<Rightarrow> error + frame" where
  "concat_frames a b =
     (if columns a = columns b
      then Inr \<lparr>index = index a @ index b,
                cols = map (\<lambda>(ca, cb). (fst ca, snd ca @ snd cb)) (zip (cols a) (cols b))\<rparr>
      else if distinct (columns a) \<and> distinct (columns b)
      then Inr \<lparr>index = index a @ index b,
                cols = map (\<lambda>c. (fst c, snd c @ (case map_of (cols b) (fst c) of
                                                     Some y \<Rightarrow> y
                                                   | None \<Rightarrow> replicate (nrows b) NaN))) (cols a)
                       @ map (\<lambda>c. (fst c, replicate (nrows a) NaN @ snd c))
                             (filter (\<lambda>c. fst c \<notin> set (columns a)) (cols b))\<rparr>
      else Inl InvalidIndexError)"

text \<open>
  \<open>left.merge(right, how='outer', left_index=True, right_index=True, sort=True)\<close>.  The keys
  of the result are the keys of both frames, sorted; a key gives one row for each pair of a
  row of the left and a row of the right frame that carry it, or one row for each row that
  carries it when the other frame has none.  A row is the key with the position of the left
  and of the right row.
\<close>

definition positions :: "int \<Rightarrow> int list \<Rightarrow> nat list" where
  "positions k xs = map fst (filter (\<lambda>p. snd p = k) (enumerate 0 xs))"

definition join_rows :: "int list \<Rightarrow> int list \<Rightarrow> (int \<times> nat option \<times> nat option) list" where
  "join_rows l r =
     concat (map (\<lambda>k. let li = positions k l; ri = positions k r
                      in if li = [] then map (\<lambda>j. (k, None, Some j)) ri
                         else if ri = [] then map (\<lambda>i. (k, Some i, None)) li
                         else concat (map (\<lambda>i. map (\<lambda>j. (k, Some i, Some j)) ri) li))
                 (sort (remdups (l @ r))))"

definition take_rows :: "nat option list \<Rightarrow> cell list \<Rightarrow> cell list" where
  "take_rows ps xs = map (\<lambda>p. case p of
                                 None \<Rightarrow> NaN
                               | Some i \<Rightarrow> if i < length xs then xs ! i else NaN) ps"

text \<open>A label that both frames have gets the suffix \<open>_x\<close> on the left and \<open>_y\<close> on the right.\<close>

definition merge_outer :: "frame \<Rightarrow> frame \<Rightarrow> frame" where
  "merge_outer left right =
     (let rows = join_rows (index left) (index right)
      in \<lparr>index = map fst rows,
          cols = map (\<lambda>c. (if fst c \<in> set (columns right) then fst c @ ''_x'' else fst c,
                            take_rows (map (\<lambda>r. fst (snd r)) rows) (snd c))) (cols left)
                 @ map (\<lambda>c. (if fst c \<in> set (columns left) then fst c @ ''_y'' else fst c,
                              take_rows (map (\<lambda>r. snd (snd r)) rows) (snd c))) (cols right)\<rparr>)"

section \<open>Processing one interval\<close>

text \<open>The loop that pops from the queues of a site the files whose time stamp is before
  \<open>next_file_ts\<close>; it ends with the IndexError of an empty queue.\<close>

fun pop_files :: "int \<Rightarrow> string list \<Rightarrow> int list \<Rightarrow> (string \<times> int) list \<times> string list \<times> int list" where
  "pop_files next_file_ts fns [] = ([], fns, [])"
| "pop_files next_file_ts fns (t # tss) =
     (if t < next_file_ts
      then (case fns of
              [] \<Rightarrow> ([], [], t # tss)
            | fn # fns' \<Rightarrow>
                (case pop_files next_file_ts fns' tss of
                   (next, fns'', tss'') \<Rightarrow> ((fn, t) # next, fns'', tss'')))
      else ([], fns, t # tss))"

text \<open>The loop over the files found for a site and an interval: each is processed and
  appended to the frame so far (\<open>None\<close> before the first file), then its metadata recorded.\<close>

fun files_loop ::
  "engine \<Rightarrow> file_store \<Rightarrow> int \<Rightarrow> string \<Rightarrow> (string \<times> int) list \<Rightarrow> frame option \<Rightarrow> site_state
     \<Rightarrow> error + (frame option \<times> site_state)" where
  "files_loop self fs dfts site [] rawdat e = Inr (rawdat, e)"
| "files_loop self fs dfts site ((fn, ts) # rest) rawdat e =
     (case process_file self fs fn site ts of
        Inl er \<Rightarrow> Inl er
      | Inr rawdat_tmp \<Rightarrow>
          (case (case rawdat of
                   None \<Rightarrow> Inr rawdat_tmp
                 | Some rd \<Rightarrow> concat_frames rd rawdat_tmp) of
             Inl er \<Rightarrow> Inl er
           | Inr rd \<Rightarrow>
               (case update_metadata fs dfts ts fn e of
                  Inl er \<Rightarrow> Inl er
                | Inr e' \<Rightarrow> files_loop self fs dfts site rest (Some rd) e')))"

text \<open>The body of the loop of \<open>process_interval\<close> over the sites, up to the merge: the frame
  of one site for the interval that starts at \<open>dfts\<close>, and the site's new state.\<close>

definition assemble ::
  "engine \<Rightarrow> file_store \<Rightarrow> int \<Rightarrow> string \<Rightarrow> site_state \<Rightarrow> error + (frame \<times> site_state)" where
  "assemble self fs dfts site e =
     (let next_file_ts = dfts + file_length self * 60000
      in case pop_files next_file_ts (fns_temp e) (file_tss_temp e) of
           (next, fns', tss') \<Rightarrow>
             (let e1 = e\<lparr>fns_temp := fns', file_tss_temp := tss'\<rparr>
              in if next = []
                 then (case make_empty self dfts site of
                         Inl er \<Rightarrow> Inl er
                       | Inr rawdat \<Rightarrow> Inr (drop_label ''RECORD'' rawdat, e1))
                 else (case files_loop self fs dfts site next None e1 of
                         Inl er \<Rightarrow> Inl er
                       | Inr (None, e2) \<Rightarrow> Inl UnboundLocalError
                       | Inr (Some rawdat, e2) \<Rightarrow> Inr (rawdat, e2))))"

fun sites_loop ::
  "engine \<Rightarrow> file_store \<Rightarrow> int \<Rightarrow> string list \<Rightarrow> frame \<Rightarrow> (string \<times> site_state) list
     \<Rightarrow> error + (frame \<times> (string \<times> site_state) list)" where
  "sites_loop self fs dfts [] dat st = Inr (dat, st)"
| "sites_loop self fs dfts (site # sites) dat st =
     (case map_of st site of
        None \<Rightarrow> Inl KeyError
      | Some e \<Rightarrow>
          (case assemble self fs dfts site e of
             Inl er \<Rightarrow> Inl er
           | Inr (rawdat, e') \<Rightarrow>
               sites_loop self fs dfts sites (merge_outer dat rawdat) (AList.update site e' st)))"

text \<open>\<open>process_interval\<close>: the frame of the interval on the desired time index, merged with
  the frame of each site in turn; the table written to the output file has the columns
  \<open>dat.columns[1:]\<close> and no index.  The result is the merged frame, the written table and the
  new state of the sites.\<close>

definition desired_time_index :: "engine \<Rightarrow> int \<Rightarrow> int list" where
  "desired_time_index self dfts =
     date_range (dfts + acq_period self) (nat (n_records self)) (acq_period self)"

definition process_interval ::
  "engine \<Rightarrow> file_store \<Rightarrow> (string \<times> site_state) list \<Rightarrow> int
     \<Rightarrow> error + (frame \<times> frame \<times> (string \<times> site_state) list)" where
  "process_interval self fs st dfts =
     (if n_records self < 0 then Inl ValueError
      else case sites_loop self fs dfts (site_names self)
                  \<lparr>index = desired_time_index self dfts, cols = []\<rparr> st of
             Inl er \<Rightarrow> Inl er
           | Inr (dat, st') \<Rightarrow>
               (case getitem_list (tl (columns dat)) dat of
                  Inl er \<Rightarrow> Inl er
                | Inr written \<Rightarrow> Inr (dat, written, st')))"

section \<open>The summary\<close>

text \<open>The summary array: its shape (time, statistic, site, variable) and its items.\<close>

record ndarray =
  shape :: "nat \<times> nat \<times> nat \<times> nat"
  item :: "nat \<Rightarrow> nat \<Rightarrow> nat \<Rightarrow> nat \<Rightarrow> cell"

definition summary_cols :: "(string \<times> nat) list" where
  "summary_cols = [(''Ux'', 0), (''Uy'', 1), (''Uz'', 2), (''Ts'', 3), (''CO2'', 4), (''H2O'', 5),
                   (''PCELL'', 6), (''TCELL'', 7), (''flag'', 8)]"

text \<open>\<open>summary_sites\<close>: the sites of the run numbered in order and, when NF17 is one of them,
  the key NF7 with the next number.\<close>

definition summary_sites :: "engine \<Rightarrow> (string \<times> nat) list" where
  "summary_sites self =
     (let d = map (\<lambda>p. (snd p, fst p)) (enumerate 0 (site_names self))
      in if ''NF17'' \<in> set (map fst d)
         then AList.update ''NF7'' (Max (set (map snd d)) + 1) d
         else d)"

definition summary_template :: "engine \<Rightarrow> nat \<Rightarrow> ndarray" where
  "summary_template self n_intervals =
     \<lparr>shape = (n_intervals, 5, length (summary_sites self), length summary_cols),
      item = (\<lambda>i k s c. NaN)\<rparr>"

text \<open>The coordinates of the axis SITE of the data set built at the end of the run.\<close>

definition summary_site_coords :: "engine \<Rightarrow> string list" where
  "summary_site_coords self = map fst (summary_sites self)"

text \<open>The numbers of a column that are not missing, and the five statistics of numpy over
  them (float64 as real numbers).  The reductions of an empty column raise ValueError, the
  mean of a column of time stamps TypeError; a column with no number gives a missing mean,
  maximum, minimum and deviation.  (\<open>n_records\<close> is not zero in a run: the constructor
  divides by \<open>acq_freq\<close>.)\<close>

definition numbers :: "cell list \<Rightarrow> real list" where
  "numbers col = concat (map (\<lambda>c. case c of Num r \<Rightarrow> [r] | _ \<Rightarrow> []) col)"

definition nanmean :: "cell list \<Rightarrow> cell" where
  "nanmean col = (let xs = numbers col in if xs = [] then NaN else Num (sum_list xs / real (length xs)))"

definition nanmax :: "cell list \<Rightarrow> cell" where
  "nanmax col = (let xs = numbers col in if xs = [] then NaN else Num (fold max (tl xs) (hd xs)))"

definition nanmin :: "cell list \<Rightarrow> cell" where
  "nanmin col = (let xs = numbers col in if xs = [] then NaN else Num (fold min (tl xs) (hd xs)))"

definition nanstd :: "cell list \<Rightarrow> cell" where
  "nanstd col =
     (let xs = numbers col
      in if xs = [] then NaN
         else let m = sum_list xs / real (length xs)
              in Num (sqrt (sum_list (map (\<lambda>x. (x - m)\<^sup>2) xs) / real (length xs))))"

text \<open>\<open>100 - 100*np.nansum(0*col + 1)/self.n_records\<close>.\<close>

definition npc :: "engine \<Rightarrow> cell list \<Rightarrow> cell" where
  "npc self col = Num (100 - 100 * real (length (numbers col)) / real_of_int (n_records self))"

definition column_stats :: "engine \<Rightarrow> cell list \<Rightarrow> error + cell list" where
  "column_stats self col =
     (if col = [] then Inl ValueError
      else if list_ex (\<lambda>x. case x of Stamp t \<Rightarrow> True | _ \<Rightarrow> False) col then Inl TypeError
      else Inr [nanmean col, nanmax col, nanmin col, nanstd col, npc self col])"

text \<open>\<open>summary_arr[idfts, :, s, c] = values\<close>.\<close>

definition setitem_stats :: "ndarray \<Rightarrow> nat \<Rightarrow> nat \<Rightarrow> nat \<Rightarrow> cell list \<Rightarrow> error + ndarray" where
  "setitem_stats arr i s c vals =
     (case shape arr of
        (nt, nk, ns, nc) \<Rightarrow>
          if \<not> (i < nt \<and> s < ns \<and> c < nc) then Inl IndexError
          else if length vals \<noteq> nk then Inl ValueError
          else Inr (arr\<lparr>item := (\<lambda>i' k s' c'. if i' = i \<and> s' = s \<and> c' = c \<and> k < nk
                                                then vals ! k else item arr i' k s' c')\<rparr>))"

text \<open>The place of a column in the summary: \<open>summary_sites[colname.split('_')[-1]]\<close> and
  \<open>summary_cols[colname.split('_')[0]]\<close>.\<close>

definition summary_target :: "engine \<Rightarrow> string \<Rightarrow> error + (nat \<times> nat)" where
  "summary_target self colname =
     (case map_of (summary_sites self) (last (py_split ''_'' colname)) of
        None \<Rightarrow> Inl KeyError
      | Some s \<Rightarrow>
          (case map_of summary_cols (hd (py_split ''_'' colname)) of
             None \<Rightarrow> Inl KeyError
           | Some c \<Rightarrow> Inr (s, c)))"

text \<open>The loop of \<open>update_summary\<close> over the columns of the merged frame.\<close>

fun summary_loop :: "engine \<Rightarrow> frame \<Rightarrow> nat \<Rightarrow> string list \<Rightarrow> ndarray \<Rightarrow> error + ndarray" where
  "summary_loop self dat idfts [] summary_arr = Inr summary_arr"
| "summary_loop self dat idfts (colname # rest) summary_arr =
     (case colname of
        [] \<Rightarrow> Inl IndexError
      | ch # _ \<Rightarrow>
          if ch \<in> set ''UTCHPF''
          then (case map_of (cols dat) colname of
                  None \<Rightarrow> Inl KeyError
                | Some col \<Rightarrow>
                    (case column_stats self col of
                       Inl er \<Rightarrow> Inl er
                     | Inr vals \<Rightarrow>
                         (case summary_target self colname of
                            Inl er \<Rightarrow> Inl er
                          | Inr (s, c) \<Rightarrow>
                              (case setitem_stats summary_arr idfts s c vals of
                                 Inl er \<Rightarrow> Inl er
                               | Inr arr' \<Rightarrow> summary_loop self dat idfts rest arr'))))
          else summary_loop self dat idfts rest summary_arr)"

definition update_summary :: "engine \<Rightarrow> frame \<Rightarrow> ndarray \<Rightarrow> nat \<Rightarrow> error + ndarray" where
  "update_summary self dat summary_arr idfts = summary_loop self dat idfts (columns dat) summary_arr"

text \<open>The check of one entry of the table of \<open>reorder_headers\<close> against the final header of
  its site: the header and the columns to add have no repetition, the columns to add are in
  the header, and no label of the header is renamed.\<close>

definition rule_ok :: "string \<Rightarrow> int \<Rightarrow> bool" where
  "rule_ok site d =
     (case header_rule site d of
        Rule a r \<Rightarrow>
          (case map_of final_headers site of
             Some h \<Rightarrow> distinct h \<and> distinct a \<and> a \<noteq> [] \<and> list_all (\<lambda>l. l \<in> set h) a
                       \<and> list_all (\<lambda>l. rename_label r l = l) h
           | None \<Rightarrow> False)
      | _ \<Rightarrow> False)"

section \<open>Example data\<close>

text \<open>A run for the site SF4 on 2020-01-01, a raw frame of that site, and a frame that already
  has the final header.\<close>

definition sf4_engine :: engine where
  "sf4_engine = \<lparr>site_names = [''SF4''], acq_freq = 10, file_length = 30,
                  start_time = 1577836800000, end_time = 1577923200000\<rparr>"

definition sf4_raw_frame :: frame where
  "sf4_raw_frame =
     \<lparr>index = [0, 1],
      cols = [(''TIMESTAMP'', [Stamp 1577836800100, Stamp 1577836800200]),
              (''RECORD'', [Num 0, Num 1]),
              (''Ux'', [Num 1, Num 2]), (''Uy'', [Num 3, NaN]), (''Uz'', [Num 0, Num 0]),
              (''Ts'', [Num 21, Num 22]), (''diag_sonic'', [Num 0, Num 0]),
              (''CO2'', [Num 700, Num 701]), (''H2O'', [Num 9, Num 9]),
              (''diag_irga'', [Num 0, Num 0]), (''cell_tmpr'', [Num 30, Num 30]),
              (''cell_press'', [Num 77, Num 77]), (''batt_volt'', [Num 12, Num 12])]\<rparr>"

definition sf4_canonical_frame :: frame where
  "sf4_canonical_frame =
     \<lparr>index = [0],
      cols = [(''TIMESTAMP'', [Stamp 1577836800100]), (''RECORD'', [Num 0]),
              (''Ux_SON_SF4'', [Num 1]), (''Uy_SON_SF4'', [Num 3]), (''Uz_SON_SF4'', [Num 0]),
              (''Ts_SON_SF4'', [Num 21]), (''CO2_IRGA_SF4'', [Num 700]),
              (''H2O_IRGA_SF4'', [Num 9]), (''PCELL_IRGA_SF4'', [Num 77]),
              (''TCELL_IRGA_SF4'', [Num 30]), (''DIAG_SON_SF4'', [Num 0]),
              (''flag_SON_SF4'', [Num 0]), (''DIAG_IRGA_SF4'', [Num 0])]\<rparr>"

text \<open>A run at 1 Hz with intervals of one minute for the site SF4, and a raw file of that site
  with two records.\<close>

definition engine_1hz :: engine where
  "engine_1hz = \<lparr>site_names = [''SF4''], acq_freq = 1, file_length = 1,
                  start_time = 1577836800000, end_time = 1577836860000\<rparr>"

definition sf4_table :: "int \<Rightarrow> int \<Rightarrow> frame" where
  "sf4_table t1 t2 =
     \<lparr>index = [0, 1],
      cols = [(''TIMESTAMP'', [Stamp t1, Stamp t2]), (''RECORD'', [Num 0, Num 1]),
              (''Ux'', [Num 1, Num 2]), (''Uy'', [Num 3, NaN]), (''Uz'', [Num 0, Num 0]),
              (''Ts'', [Num 21, Num 22]), (''diag_sonic'', [Num 0, Num 0]),
              (''CO2'', [Num 700, Num 701]), (''H2O'', [Num 9, Num 9]),
              (''diag_irga'', [Num 0, Num 0]), (''cell_tmpr'', [Num 30, Num 30]),
              (''cell_press'', [Num 77, Num 77])]\<rparr>"

definition toa5_line :: "string list \<Rightarrow> string" where
  "toa5_line flds =
     [CHR 0x22] @ foldr (\<lambda>f s. if s = [] then f else f @ field_separator @ s) flds []
     @ [CHR 0x22, CHR 0x0A]"

definition sf4_path :: string where
  "sf4_path = ''/raw/SF4/TOA5_4711.ts_data_1Hz_2020_01_01_0000.dat''"

definition sf4_file :: "int \<Rightarrow> int \<Rightarrow> raw_file" where
  "sf4_file t1 t2 =
     \<lparr>first_line = toa5_line [''TOA5'', ''SF4'', ''CR3000'', ''4711'', ''CR3000.Std.31'',
                               ''CPU:ec.CR3'', ''1234'', ''ts_data''],
      table = sf4_table t1 t2\<rparr>"

definition sf4_state :: site_state where
  "sf4_state = \<lparr>fns_temp = [sf4_path], file_tss_temp = [1577836800000],
                 rawfile_metadata = metadata_template 1, ifile = 0\<rparr>"

text \<open>The columns of the frame of a site when it is merged: its final header without the
  TIMESTAMP, which is the index, and without RECORD, which \<open>process_file\<close> and
  \<open>process_interval\<close> drop.\<close>

definition value_columns :: "string \<Rightarrow> string list" where
  "value_columns site =
     filter (\<lambda>l. l \<noteq> ''TIMESTAMP'' \<and> l \<noteq> ''RECORD'')
       (case map_of final_headers site of Some h \<Rightarrow> h | None \<Rightarrow> [])"

definition site_states_1hz :: "(string \<times> site_state) list" where
  "site_states_1hz = [(''SF4'', sf4_state)]"

text \<open>The check that \<open>update_summary\<close> can summarise a frame into an array with \<open>ns\<close>
  sites and \<open>nc\<close> variables: every column label is non-empty and, when it begins with one
  of the letters of \<open>'UTCHPF'\<close>, has a place in the array; no column is empty or holds time
  stamps.\<close>

definition summarisable :: "engine \<Rightarrow> nat \<Rightarrow> nat \<Rightarrow> frame \<Rightarrow> bool" where
  "summarisable self ns nc dat \<longleftrightarrow>
     list_all (\<lambda>n. n \<noteq> [] \<and> (hd n \<in> set ''UTCHPF'' \<longrightarrow>
                 (case summary_target self n of Inr (s, c) \<Rightarrow> s < ns \<and> c < nc | Inl e \<Rightarrow> False)))
       (columns dat)
     \<and> list_all (\<lambda>p. snd p \<noteq> [] \<and> list_all (\<lambda>x. case x of Stamp t \<Rightarrow> False | _ \<Rightarrow> True) (snd p))
         (cols dat)"



text \<open>A run at 1 Hz with intervals of one minute for the site NF17, and its interval
  2020-01-01 00:00 when no raw file is found (the frame of the site is the placeholder).\<close>

definition engine_nf17 :: engine where
  "engine_nf17 = \<lparr>site_names = [''NF17''], acq_freq = 1, file_length = 1,
                   start_time = 1577836800000, end_time = 1577836860000\<rparr>"

definition nf17_run :: "error + (frame \<times> frame \<times> (string \<times> site_state) list)" where
  "nf17_run =
     process_interval engine_nf17 []
       [(''NF17'', \<lparr>fns_temp = [], file_tss_temp = [], rawfile_metadata = [], ifile = 0\<rparr>)]
       1577836800000"

section \<open>Theorems\<close>

lemma contains_str_iff: "contains_str sub s \<longleftrightarrow> (\<exists>pre post. s = pre @ sub @ post)"
proof (induction s)
  case Nil
  then show ?case by auto
next
  case (Cons c cs)
  show ?case
  proof
    assume "contains_str sub (c # cs)"
    then consider "take (length sub) (c # cs) = sub" | "contains_str sub cs" by auto
    then show "\<exists>pre post. c # cs = pre @ sub @ post"
    proof cases
      case 1
      then have "c # cs = [] @ sub @ drop (length sub) (c # cs)"
        by (metis append_Nil append_take_drop_id)
      then show ?thesis by blast
    next
      case 2
      then obtain pre post where "cs = pre @ sub @ post" using Cons.IH by blast
      then have "c # cs = (c # pre) @ sub @ post" by simp
      then show ?thesis by blast
    qed
  next
    assume "\<exists>pre post. c # cs = pre @ sub @ post"
    then obtain pre post where e: "c # cs = pre @ sub @ post" by blast
    show "contains_str sub (c # cs)"
    proof (cases pre)
      case Nil
      then have "take (length sub) (c # cs) = sub" using e by simp
      then show ?thesis by simp
    next
      case (Cons a pre')
      then have "cs = pre' @ sub @ post" using e by simp
      then show ?thesis using Cons.IH by auto
    qed
  qed
qed

lemma split_acc_no_marker:
  "\<not> contains_str sep s \<Longrightarrow> split_acc sep acc s = [rev acc @ s]"
  by (induction s arbitrary: acc) auto

lemma get_timestamp_no_marker:
  "\<not> contains_str ''Hz'' (path_name fn) \<Longrightarrow> get_timestamp_from_fn p fn = Inl IndexError"
  by (simp add: get_timestamp_from_fn_def py_split_def split_acc_no_marker)

lemma get_timestamp_errors:
  "get_timestamp_from_fn p fn = Inl e \<Longrightarrow> e = IndexError \<or> e = ValueError"
  by (auto simp: get_timestamp_from_fn_def Let_def split: list.splits option.splits)

lemma file_tss_loop_errors:
  "file_tss_loop p self fns = Inl e \<Longrightarrow> e = IndexError \<or> e = ValueError"
proof (induction fns)
  case Nil
  then show ?case by simp
next
  case (Cons fn fns)
  then show ?case
    by (auto split: sum.splits if_splits dest: get_timestamp_errors)
qed

lemma file_tss_loop_fails:
  "fn \<in> set fns \<Longrightarrow> get_timestamp_from_fn p fn = Inl e \<Longrightarrow> \<exists>e'. file_tss_loop p self fns = Inl e'"
proof (induction fns)
  case Nil
  then show ?case by simp
next
  case (Cons a fns)
  then show ?case
    by (cases "get_timestamp_from_fn p a") (auto split: sum.splits)
qed

lemma split_acc_nonempty: "split_acc sep acc s \<noteq> []"
  by (induction s arbitrary: acc) auto

lemma split_acc_marker:
  "contains_str sep s \<Longrightarrow> sep \<noteq> [] \<Longrightarrow> \<exists>a b rest. split_acc sep acc s = a # b # rest"
proof (induction s arbitrary: acc)
  case Nil
  then show ?case by simp
next
  case (Cons c cs)
  show ?case
  proof (cases "take (length sep) (c # cs) = sep")
    case True
    obtain b rest where "split_acc sep [] (drop (length sep - 1) cs) = b # rest"
      using split_acc_nonempty [of sep "[]" "drop (length sep - 1) cs"]
      by (cases "split_acc sep [] (drop (length sep - 1) cs)") auto
    with True Cons.prems(2) show ?thesis by simp
  next
    case False
    with Cons.prems have "contains_str sep cs" by simp
    from Cons.IH [OF this Cons.prems(2), of "c # acc"] False show ?thesis by simp
  qed
qed

lemma get_timestamp_marker:
  assumes "contains_str ''Hz'' (path_name fn)"
  shows "\<exists>a file_id rest. py_split ''Hz'' (path_name fn) = a # file_id # rest
           \<and> get_timestamp_from_fn p fn =
                (case p (concat (butlast (tl (re_split_chars ''_.'' file_id)))) of
                   None \<Rightarrow> Inl ValueError
                 | Some file_start_ts \<Rightarrow> Inr file_start_ts)"
proof -
  obtain a file_id rest where s: "py_split ''Hz'' (path_name fn) = a # file_id # rest"
    using split_acc_marker [OF assms, of "[]"] by (auto simp: py_split_def)
  then have "get_timestamp_from_fn p fn =
                (case p (concat (butlast (tl (re_split_chars ''_.'' file_id)))) of
                   None \<Rightarrow> Inl ValueError
                 | Some file_start_ts \<Rightarrow> Inr file_start_ts)"
    by (simp add: get_timestamp_from_fn_def Let_def)
  with s show ?thesis by blast
qed

text \<open>
  Claim C6, as the code has it.  A raw file name whose final path component lacks the
  acquisition-rate marker \<open>Hz\<close> makes \<open>get_timestamp_from_fn\<close> raise IndexError.  With the
  marker, the outcome is that of the pandas parser on the time stamp segment (the text after
  the first marker, split at \<open>_\<close> and \<open>.\<close>, without its first and last piece): ValueError
  when the parser refuses it, the time stamp otherwise.  There is no other exception, and when
  the name of a file found for a site fails, the indexing of that site fails with one of the
  two.  FilenameFormatError is raised nowhere.
\<close>

theorem timestamp_extraction_errors:
  "(\<not> (\<exists>pre post. path_name fn = pre @ ''Hz'' @ post) \<longrightarrow>
       get_timestamp_from_fn p fn = Inl IndexError)
   \<and> ((\<exists>pre post. path_name fn = pre @ ''Hz'' @ post) \<longrightarrow>
       (\<exists>a file_id rest. py_split ''Hz'' (path_name fn) = a # file_id # rest
          \<and> get_timestamp_from_fn p fn =
               (case p (concat (butlast (tl (re_split_chars ''_.'' file_id)))) of
                  None \<Rightarrow> Inl ValueError
                | Some file_start_ts \<Rightarrow> Inr file_start_ts)))
   \<and> (\<forall>e. get_timestamp_from_fn p fn = Inl e \<longrightarrow> e = IndexError \<or> e = ValueError)
   \<and> (\<forall>e. fn \<in> set fns \<and> get_timestamp_from_fn p fn = Inl e \<longrightarrow>
          find_file_tss p self fns = Inl IndexError \<or> find_file_tss p self fns = Inl ValueError)"
proof (intro conjI allI impI)
  assume "\<not> (\<exists>pre post. path_name fn = pre @ ''Hz'' @ post)"
  then show "get_timestamp_from_fn p fn = Inl IndexError"
    by (simp add: get_timestamp_no_marker contains_str_iff)
next
  assume "\<exists>pre post. path_name fn = pre @ ''Hz'' @ post"
  then have "contains_str ''Hz'' (path_name fn)" by (simp only: contains_str_iff)
  then show "\<exists>a file_id rest. py_split ''Hz'' (path_name fn) = a # file_id # rest
          \<and> get_timestamp_from_fn p fn =
               (case p (concat (butlast (tl (re_split_chars ''_.'' file_id)))) of
                  None \<Rightarrow> Inl ValueError
                | Some file_start_ts \<Rightarrow> Inr file_start_ts)"
    by (rule get_timestamp_marker)
next
  fix e assume "get_timestamp_from_fn p fn = Inl e"
  then show "e = IndexError \<or> e = ValueError" by (rule get_timestamp_errors)
next
  fix e assume "fn \<in> set fns \<and> get_timestamp_from_fn p fn = Inl e"
  then obtain e' where e': "file_tss_loop p self fns = Inl e'"
    using file_tss_loop_fails by blast
  then have "e' = IndexError \<or> e' = ValueError" by (rule file_tss_loop_errors)
  with e' show "find_file_tss p self fns = Inl IndexError \<or> find_file_tss p self fns = Inl ValueError"
    by (auto simp: find_file_tss_def)
qed

theorem timestamp_extraction_errors_witness:
  "\<not> (\<exists>pre post. path_name ''/raw/NF17/TOA5_9810.ts_data_2019_05_18_1230.dat'' = pre @ ''Hz'' @ post)
   \<and> get_timestamp_from_fn to_datetime_ymdhm ''/raw/NF17/TOA5_9810.ts_data_2019_05_18_1230.dat''
       = Inl IndexError
   \<and> (\<exists>pre post. path_name ''/raw/NF17/TOA5_9810.ts_data_10Hz_garbage.dat'' = pre @ ''Hz'' @ post)
   \<and> get_timestamp_from_fn to_datetime_ymdhm ''/raw/NF17/TOA5_9810.ts_data_10Hz_garbage.dat''
       = Inl ValueError
   \<and> get_timestamp_from_fn to_datetime_ymdhm ''/raw/NF17/TOA5_9810.ts_data_10Hz_2019_05_18_1200.dat''
       = Inr 1558180800000
   \<and> find_file_tss to_datetime_ymdhm \<lparr>site_names = [''NF17''], acq_freq = 10, file_length = 30,
        start_time = 0, end_time = 2000000000000\<rparr>
        [''/raw/NF17/TOA5_9810.ts_data_10Hz_2019_05_18_1200.dat'',
         ''/raw/NF17/TOA5_9810.ts_data_10Hz_garbage.dat''] = Inl ValueError"
proof -
  let ?bad = "''/raw/NF17/TOA5_9810.ts_data_2019_05_18_1230.dat''"
  let ?garbage = "''/raw/NF17/TOA5_9810.ts_data_10Hz_garbage.dat''"
  let ?good = "''/raw/NF17/TOA5_9810.ts_data_10Hz_2019_05_18_1200.dat''"
  let ?self = "\<lparr>site_names = [''NF17''], acq_freq = 10, file_length = 30,
        start_time = 0, end_time = 2000000000000\<rparr>"
  have h1: "\<not> (\<exists>pre post. path_name ?bad = pre @ ''Hz'' @ post)"
    unfolding contains_str_iff [symmetric] by code_simp
  have h2: "\<exists>pre post. path_name ?garbage = pre @ ''Hz'' @ post"
    unfolding contains_str_iff [symmetric] by code_simp
  have h3: "\<exists>pre post. path_name ?good = pre @ ''Hz'' @ post"
    unfolding contains_str_iff [symmetric] by code_simp
  have s2: "py_split ''Hz'' (path_name ?garbage) = [''TOA5_9810.ts_data_10'', ''_garbage.dat'']"
    by code_simp
  have p2: "to_datetime_ymdhm (concat (butlast (tl (re_split_chars ''_.'' ''_garbage.dat'')))) = None"
    by code_simp
  have s3: "py_split ''Hz'' (path_name ?good) = [''TOA5_9810.ts_data_10'', ''_2019_05_18_1200.dat'']"
    by code_simp
  have p3: "to_datetime_ymdhm (concat (butlast (tl (re_split_chars ''_.'' ''_2019_05_18_1200.dat''))))
            = Some 1558180800000"
    by code_simp
  note t1 = timestamp_extraction_errors [of ?bad to_datetime_ymdhm "[]" ?self]
  note t2 = timestamp_extraction_errors [of ?garbage to_datetime_ymdhm "[?good, ?garbage]" ?self]
  note t3 = timestamp_extraction_errors [of ?good to_datetime_ymdhm "[]" ?self]
  from t1 h1 have g1: "get_timestamp_from_fn to_datetime_ymdhm ?bad = Inl IndexError" by blast
  from t2 h2 s2 p2 have g2: "get_timestamp_from_fn to_datetime_ymdhm ?garbage = Inl ValueError"
    by auto
  from t3 h3 s3 p3 have g3: "get_timestamp_from_fn to_datetime_ymdhm ?good = Inr 1558180800000"
    by auto
  have "find_file_tss to_datetime_ymdhm ?self [?good, ?garbage] \<noteq> Inl IndexError"
    by (simp add: find_file_tss_def g2 g3)
  moreover from t2 g2
  have "find_file_tss to_datetime_ymdhm ?self [?good, ?garbage] = Inl IndexError
      \<or> find_file_tss to_datetime_ymdhm ?self [?good, ?garbage] = Inl ValueError"
    by simp
  ultimately have g4: "find_file_tss to_datetime_ymdhm ?self [?good, ?garbage] = Inl ValueError"
    by blast
  from h1 g1 h2 g2 g3 g4 show ?thesis by blast
qed

text \<open>
  Claim C6 as stated fails: a file name without the marker raises IndexError, not
  FilenameFormatError.
\<close>

theorem filename_error_counterexample:
  "get_timestamp_from_fn to_datetime_ymdhm ''/raw/NF17/TOA5_9810.ts_data_2019_05_18_1230.dat'' = Inl IndexError
   \<and> get_timestamp_from_fn to_datetime_ymdhm ''/raw/NF17/TOA5_9810.ts_data_2019_05_18_1230.dat''
       \<noteq> Inl FilenameFormatError"
  by (simp add: get_timestamp_from_fn_def py_split_def path_name_def)

lemma diag_loop_match:
  "\<exists>c\<in>set cs. re_search diag_patterns c \<noteq> None \<Longrightarrow> \<exists>e. diag_loop dd cs df = Inl e"
  by (induction cs arbitrary: df)
     (auto simp: DataFrame_assign_unbound_def Let_def split: option.splits sum.splits)

text \<open>
  Claim C3: a frame with a diagnostic column should come back with one flag column more.
  The code raises instead: for the frame of a raw NF3 file with the column \<open>DIAG_CSAT3B\<close>,
  \<open>process_diagnostics\<close> ends in an exception, whatever the lambdas of the table compute,
  since the statement \<open>pd.DataFrame.assign()\<close> follows every assignment of a flag.
\<close>

theorem process_diagnostics_raises:
  "(\<exists>e. process_diagnostics_with dd
      \<lparr>index = [0, 1],
       cols = [(''TIMESTAMP'', [Stamp 1558182600100, Stamp 1558182600200]),
               (''Ux_CSAT3B'', [Num 1, Num 2]),
               (''DIAG_CSAT3B'', [Num 0, Num 16])]\<rparr> = Inl e)
   \<and> process_diagnostics
      \<lparr>index = [0, 1],
       cols = [(''TIMESTAMP'', [Stamp 1558182600100, Stamp 1558182600200]),
               (''Ux_CSAT3B'', [Num 1, Num 2]),
               (''DIAG_CSAT3B'', [Num 0, Num 16])]\<rparr> ''NF3'' = Inl TypeError"
proof
  have "\<exists>e. diag_loop dd [''TIMESTAMP'', ''Ux_CSAT3B'', ''DIAG_CSAT3B'']
      \<lparr>index = [0, 1],
       cols = [(''TIMESTAMP'', [Stamp 1558182600100, Stamp 1558182600200]),
               (''Ux_CSAT3B'', [Num 1, Num 2]),
               (''DIAG_CSAT3B'', [Num 0, Num 16])]\<rparr> = Inl e"
    by (rule diag_loop_match) (simp add: diag_patterns_def)
  then show "\<exists>e. process_diagnostics_with dd
      \<lparr>index = [0, 1],
       cols = [(''TIMESTAMP'', [Stamp 1558182600100, Stamp 1558182600200]),
               (''Ux_CSAT3B'', [Num 1, Num 2]),
               (''DIAG_CSAT3B'', [Num 0, Num 16])]\<rparr> = Inl e"
    by (simp add: process_diagnostics_with_def columns_def)
next
  show "process_diagnostics
      \<lparr>index = [0, 1],
       cols = [(''TIMESTAMP'', [Stamp 1558182600100, Stamp 1558182600200]),
               (''Ux_CSAT3B'', [Num 1, Num 2]),
               (''DIAG_CSAT3B'', [Num 0, Num 16])]\<rparr> ''NF3'' = Inl TypeError"
    by (simp add: process_diagnostics_def process_diagnostics_with_def columns_def diag_patterns_def
          diag_dict_def assign_def int_bool_def frame_and_def)
qed

lemma reindex_columns_single:
  "l0 \<notin> set rest \<Longrightarrow>
   reindex_columns (l0 # rest) fill \<lparr>index = ix, cols = [(l0, d)]\<rparr>
     = Inr \<lparr>index = ix, cols = (l0, d) # map (\<lambda>l. (l, replicate (length ix) fill)) rest\<rparr>"
  by (induction rest) (auto simp: reindex_columns_def columns_def nrows_def)

lemma set_index_head:
  "l0 \<notin> set rest \<Longrightarrow> those (map stamp_of d) = Some ts \<Longrightarrow>
   set_index l0 \<lparr>index = ix, cols = (l0, d) # map (\<lambda>l. (l, x)) rest\<rparr>
     = Inr \<lparr>index = ts, cols = map (\<lambda>l. (l, x)) rest\<rparr>"
proof -
  assume a: "l0 \<notin> set rest" and b: "those (map stamp_of d) = Some ts"
  have "filter (\<lambda>c. fst c = l0) (map (\<lambda>l. (l, x)) rest) = []"
    using a by (induction rest) auto
  moreover have "filter (\<lambda>c. fst c \<noteq> l0) (map (\<lambda>l. (l, x)) rest) = map (\<lambda>l. (l, x)) rest"
    using a by (induction rest) auto
  ultimately show ?thesis using b by (simp add: set_index_def)
qed

lemma make_empty_value:
  assumes "site \<in> set (site_names self)" and "map_of final_headers site = Some (''TIMESTAMP'' # rest)"
     and "''TIMESTAMP'' \<notin> set rest"
  shows "make_empty self fts site =
      Inr \<lparr>index = [fts + acq_period self, fts + acq_period self + 100],
           cols = map (\<lambda>l. (l, [NaN, NaN])) rest\<rparr>"
proof -
  have r: "[0..<2] = [0, 1]" by (simp add: upt_rec)
  have s: "those (map stamp_of [Stamp (fts + acq_period self), Stamp (fts + acq_period self + 100)])
            = Some [fts + acq_period self, fts + acq_period self + 100]"
    by simp
  show ?thesis
    using assms(1,2)
    by (simp add: make_empty_def final_header_def date_range_def r
          reindex_columns_single [OF assms(3)] set_index_head [OF assms(3) s])
qed

text \<open>
  Claim C4: for the sites with a maintenance day (NF17, NF3, SF7; the day is 2019-05-19) and
  a file time stamp on that day, \<open>reorder_headers\<close> returns the frame of \<open>make_empty\<close>,
  whatever frame it was given: two rows, one acquisition period and 100 ms more after the
  time stamp, every column of the final header (the TIMESTAMP is the index) missing.
\<close>

theorem maintenance_day_placeholder:
  assumes "site = ''NF17'' \<or> site = ''NF3'' \<or> site = ''SF7''"
      and "site \<in> set (site_names self)"
      and "date_of fts = days_from_civil 2019 5 19"
  shows "reorder_headers self site fts df = make_empty self fts site
       \<and> (\<exists>hdr. map_of final_headers site = Some (''TIMESTAMP'' # hdr)
            \<and> reorder_headers self site fts df =
               Inr \<lparr>index = [fts + acq_period self, fts + acq_period self + 100],
                    cols = map (\<lambda>l. (l, [NaN, NaN])) hdr\<rparr>)"
proof -
  have m: "header_rule site (date_of fts) = Maintenance"
    using assms(1,3) by (auto simp: header_rule_def)
  then have 1: "reorder_headers self site fts df = make_empty self fts site"
    by (simp add: reorder_headers_def)
  obtain hdr where h: "map_of final_headers site = Some (''TIMESTAMP'' # hdr)" "''TIMESTAMP'' \<notin> set hdr"
    using assms(1) by (auto simp: final_headers_def)
  from make_empty_value [OF assms(2) h] 1 h(1) show ?thesis by simp
qed

theorem maintenance_day_placeholder_witness:
  "(''NF3'' = ''NF17'' \<or> ''NF3'' = ''NF3'' \<or> ''NF3'' = ''SF7'')
   \<and> ''NF3'' \<in> set (site_names \<lparr>site_names = [''NF17'', ''NF3''], acq_freq = 10, file_length = 30,
                                 start_time = 1558224000000, end_time = 1558310400000\<rparr>)
   \<and> date_of 1558269000000 = days_from_civil 2019 5 19
   \<and> reorder_headers \<lparr>site_names = [''NF17'', ''NF3''], acq_freq = 10, file_length = 30,
                       start_time = 1558224000000, end_time = 1558310400000\<rparr> ''NF3'' 1558269000000
        \<lparr>index = [0], cols = [(''TIMESTAMP'', [Stamp 1558269000100]), (''Ux_CSAT3B'', [Num 3])]\<rparr>
      = Inr \<lparr>index = [1558269000100, 1558269000200],
             cols = [(''RECORD'', [NaN, NaN]), (''Ux_CSAT3B_NF3'', [NaN, NaN]),
                     (''Uy_CSAT3B_NF3'', [NaN, NaN]), (''Uz_CSAT3B_NF3'', [NaN, NaN]),
                     (''Ts_CSAT3B_NF3'', [NaN, NaN]), (''CO2_LI7500_NF3'', [NaN, NaN]),
                     (''H2O_LI7500_NF3'', [NaN, NaN]), (''PCELL_LI7500_NF3'', [NaN, NaN]),
                     (''TCELL_LI7500_NF3'', [NaN, NaN]), (''DIAG_CSAT3B_NF3'', [NaN, NaN]),
                     (''flag_CSAT3B_NF3'', [NaN, NaN]), (''DIAG_LI7500_NF3'', [NaN, NaN])]\<rparr>"
proof -
  have a: "''NF3'' = ''NF17'' \<or> ''NF3'' = ''NF3'' \<or> ''NF3'' = ''SF7''" by simp
  have b: "''NF3'' \<in> set (site_names \<lparr>site_names = [''NF17'', ''NF3''], acq_freq = 10, file_length = 30,
                                 start_time = 1558224000000, end_time = 1558310400000\<rparr>)" by simp
  have c: "date_of 1558269000000 = days_from_civil 2019 5 19"
    by (simp add: date_of_def days_from_civil_def)
  show ?thesis
    using maintenance_day_placeholder [OF a b c, THEN conjunct2] a b c
    by (simp add: final_headers_def acq_period_def)
qed

lemma reindex_own_columns:
  "distinct (map fst xs) \<Longrightarrow>
   map (\<lambda>l. (l, case map_of xs l of Some d \<Rightarrow> d | None \<Rightarrow> x)) (map fst xs) = xs"
proof -
  assume d: "distinct (map fst xs)"
  have "\<And>c. c \<in> set xs \<Longrightarrow> map_of xs (fst c) = Some (snd c)"
    using d by simp
  then have "map (\<lambda>c. (fst c, case map_of xs (fst c) of Some d \<Rightarrow> d | None \<Rightarrow> x)) xs = map (\<lambda>c. c) xs"
    by (intro map_cong) auto
  then show ?thesis by (simp add: comp_def)
qed

lemma reindex_new_columns:
  "set ls \<inter> fst ` set xs = {} \<Longrightarrow>
   map (\<lambda>l. (l, case map_of xs l of Some d \<Rightarrow> d | None \<Rightarrow> x)) ls = map (\<lambda>l. (l, x)) ls"
proof -
  assume a: "set ls \<inter> fst ` set xs = {}"
  have "\<And>l. l \<in> set ls \<Longrightarrow> map_of xs l = None"
    using a by (auto simp: map_of_eq_None_iff)
  then show ?thesis by (intro map_cong) auto
qed

lemma reindex_old_columns:
  "set ls \<subseteq> fst ` set xs \<Longrightarrow>
   map (\<lambda>l. (l, case map_of xs l of Some d \<Rightarrow> d | None \<Rightarrow> x)) ls = map (\<lambda>l. (l, the (map_of xs l))) ls"
proof -
  assume a: "set ls \<subseteq> fst ` set xs"
  have "\<And>l. l \<in> set ls \<Longrightarrow> \<exists>d. map_of xs l = Some d"
    using a by (metis map_of_eq_None_iff not_Some_eq subsetD)
  then show ?thesis by (intro map_cong) force+
qed

lemma filter_label_distinct:
  "distinct (map fst R) \<Longrightarrow> l \<in> fst ` set R \<Longrightarrow> filter (\<lambda>c. fst c = l) R = [(l, the (map_of R l))]"
proof (induction R)
  case Nil
  then show ?case by simp
next
  case (Cons c R)
  show ?case
  proof (cases "fst c = l")
    case True
    then have "l \<notin> fst ` set R" using Cons.prems(1) by auto
    then have "filter (\<lambda>c. fst c = l) R = []" by (auto simp: filter_empty_conv)
    with True show ?thesis by (cases c) auto
  next
    case False
    then have "l \<in> fst ` set R" using Cons.prems(2) by auto
    with Cons False show ?thesis by (cases c) auto
  qed
qed

lemma filter_label_absent:
  "l \<notin> fst ` set R \<Longrightarrow> filter (\<lambda>c. fst c = l) R = []"
  by (auto simp: filter_empty_conv)

lemma concat_filter_labels:
  "distinct (map fst R) \<Longrightarrow> set labels \<subseteq> fst ` set R \<Longrightarrow>
   concat (map (\<lambda>l. filter (\<lambda>c. fst c = l) R) labels) = map (\<lambda>l. (l, the (map_of R l))) labels"
  by (induction labels) (auto simp: filter_label_distinct)

lemma getitem_list_distinct:
  assumes "distinct (columns df)" and "set labels \<subseteq> set (columns df)"
  shows "getitem_list labels df = Inr (df\<lparr>cols := map (\<lambda>l. (l, the (map_of (cols df) l))) labels\<rparr>)"
  using assms concat_filter_labels [of "cols df" labels]
  by (simp add: getitem_list_def columns_def)

lemma reindex_columns_added:
  assumes d1: "distinct (columns df)"
      and d2: "set cols_to_add \<inter> set (columns df) = {}"
  shows "reindex_columns (columns df @ cols_to_add) NaN df
        = Inr (df\<lparr>cols := cols df @ map (\<lambda>l. (l, replicate (nrows df) NaN)) cols_to_add\<rparr>)"
proof -
  have a: "set cols_to_add \<inter> fst ` set (cols df) = {}" using d2 by (simp add: columns_def)
  show ?thesis
    using d1 reindex_own_columns [of "cols df" "replicate (nrows df) NaN"]
      reindex_new_columns [OF a, of "replicate (nrows df) NaN"]
    by (simp add: reindex_columns_def columns_def)
qed

text \<open>
  Claim C2, as the code has it.  For a site and a date with an entry in the table (columns to
  add, renaming scheme), and a frame whose labels stay distinct once the columns are added and
  the labels renamed: when every label of the final header is among the renamed labels,
  \<open>reorder_headers\<close> returns a frame whose column list is exactly the final header, in its
  order, with the index unchanged, each column an input column under its new name or an added
  column filled with the missing value (other columns are dropped); when a label of the final
  header is not among them, it raises KeyError: a missing canonical column is not inserted.
\<close>

theorem reorder_headers_columns:
  assumes rule: "header_rule site (date_of fts) = Rule cols_to_add renaming_dict"
      and hdr: "final_header self site = Inr new_order"
      and dist: "distinct (map (rename_label renaming_dict) (columns df @ cols_to_add))"
  shows "(set new_order \<subseteq> rename_label renaming_dict ` (set (columns df) \<union> set cols_to_add) \<longrightarrow>
            (\<exists>df'. reorder_headers self site fts df = Inr df'
                  \<and> columns df' = new_order \<and> index df' = index df
                  \<and> (\<forall>c \<in> set (cols df').
                        (\<exists>c0 \<in> set (cols df). fst c = rename_label renaming_dict (fst c0) \<and> snd c = snd c0)
                      \<or> (\<exists>l \<in> set cols_to_add. fst c = rename_label renaming_dict l
                                                \<and> snd c = replicate (nrows df) NaN))))
       \<and> (\<not> set new_order \<subseteq> rename_label renaming_dict ` (set (columns df) \<union> set cols_to_add) \<longrightarrow>
            reorder_headers self site fts df = Inl KeyError)"
proof -
  let ?rn = "rename_label renaming_dict"
  define R where "R = map (\<lambda>c. (?rn (fst c), snd c)) (cols df)
            @ map (\<lambda>l. (?rn l, replicate (nrows df) NaN)) cols_to_add"
  define X where "X = df\<lparr>cols := R\<rparr>"
  define names where "names = ?rn ` (set (columns df) \<union> set cols_to_add)"
  have d0: "distinct (columns df @ cols_to_add)" using dist by (simp only: distinct_map)
  then have d1: "distinct (columns df)" and d2: "set cols_to_add \<inter> set (columns df) = {}"
    by auto
  have fstR: "map fst R = map ?rn (columns df @ cols_to_add)"
    by (simp add: R_def columns_def comp_def)
  have dR: "distinct (map fst R)" using dist fstR by simp
  have setR: "fst ` set R = names"
  proof -
    have "fst ` set R = set (map fst R)" by (simp only: set_map)
    also have "\<dots> = names" unfolding fstR names_def by (simp only: set_map set_append)
    finally show ?thesis .
  qed
  have colsX: "cols X = R" and idxX: "index X = index df" by (simp_all add: X_def)
  have columnsX: "set (columns X) = names" "distinct (columns X)"
    using setR dR by (simp_all add: columns_def colsX)
  have eq: "reorder_headers self site fts df = getitem_list new_order X"
    using rule hdr reindex_columns_added [OF d1 d2]
    by (simp add: reorder_headers_def rename_columns_def comp_def X_def R_def)
  have memR: "\<And>c. c \<in> set R \<Longrightarrow>
         (\<exists>c0 \<in> set (cols df). fst c = ?rn (fst c0) \<and> snd c = snd c0)
       \<or> (\<exists>l \<in> set cols_to_add. fst c = ?rn l \<and> snd c = replicate (nrows df) NaN)"
  proof -
    fix c assume "c \<in> set R"
    then consider c0 where "c0 \<in> set (cols df)" "c = (?rn (fst c0), snd c0)"
      | l where "l \<in> set cols_to_add" "c = (?rn l, replicate (nrows df) NaN)"
      unfolding R_def by auto
    then show "(\<exists>c0 \<in> set (cols df). fst c = ?rn (fst c0) \<and> snd c = snd c0)
       \<or> (\<exists>l \<in> set cols_to_add. fst c = ?rn l \<and> snd c = replicate (nrows df) NaN)"
    proof cases
      case 1
      then have "\<exists>c0 \<in> set (cols df). fst c = ?rn (fst c0) \<and> snd c = snd c0"
        by (intro bexI [of _ c0]) simp_all
      then show ?thesis by (rule disjI1)
    next
      case 2
      then have "\<exists>l \<in> set cols_to_add. fst c = ?rn l \<and> snd c = replicate (nrows df) NaN"
        by (intro bexI [of _ l]) simp_all
      then show ?thesis by (rule disjI2)
    qed
  qed
  show ?thesis
    unfolding names_def [symmetric]
  proof (intro conjI impI)
    assume sub: "set new_order \<subseteq> names"
    then have sub': "set new_order \<subseteq> set (columns X)" using columnsX(1) by simp
    define df' where "df' = X\<lparr>cols := map (\<lambda>l. (l, the (map_of R l))) new_order\<rparr>"
    have r: "reorder_headers self site fts df = Inr df'"
      using getitem_list_distinct [OF columnsX(2) sub'] eq by (simp add: df'_def colsX)
    have c: "columns df' = new_order" by (simp add: df'_def columns_def comp_def)
    have i: "index df' = index df" by (simp add: df'_def idxX)
    have v: "\<forall>c \<in> set (cols df').
                (\<exists>c0 \<in> set (cols df). fst c = ?rn (fst c0) \<and> snd c = snd c0)
              \<or> (\<exists>l \<in> set cols_to_add. fst c = ?rn l \<and> snd c = replicate (nrows df) NaN)"
    proof
      fix c assume "c \<in> set (cols df')"
      then obtain l where l: "l \<in> set new_order" and ceq: "c = (l, the (map_of R l))"
        by (auto simp: df'_def)
      from l sub setR have "l \<in> fst ` set R" by blast
      then obtain c0 where c0: "c0 \<in> set R" and lc: "l = fst c0" by (rule imageE)
      have "map_of R (fst c0) = Some (snd c0)"
        using map_of_eq_Some_iff [OF dR, of "fst c0" "snd c0"] c0 by simp
      then have "c = c0" using ceq lc by simp
      with c0 have "c \<in> set R" by simp
      then show "(\<exists>c0 \<in> set (cols df). fst c = ?rn (fst c0) \<and> snd c = snd c0)
              \<or> (\<exists>l \<in> set cols_to_add. fst c = ?rn l \<and> snd c = replicate (nrows df) NaN)"
        by (rule memR)
    qed
    show "\<exists>df'. reorder_headers self site fts df = Inr df'
                  \<and> columns df' = new_order \<and> index df' = index df
                  \<and> (\<forall>c \<in> set (cols df').
                        (\<exists>c0 \<in> set (cols df). fst c = ?rn (fst c0) \<and> snd c = snd c0)
                      \<or> (\<exists>l \<in> set cols_to_add. fst c = ?rn l \<and> snd c = replicate (nrows df) NaN))"
      using r c i v by (intro exI [of _ df'] conjI)
  next
    assume "\<not> set new_order \<subseteq> names"
    then have "\<not> set new_order \<subseteq> set (columns X)" using columnsX(1) by simp
    then show "reorder_headers self site fts df = Inl KeyError"
      unfolding eq by (simp add: getitem_list_def)
  qed
qed

lemma filter_eq_distinct:
  "distinct ls \<Longrightarrow> filter (\<lambda>l'. l' = l) ls = (if l \<in> set ls then [l] else [])"
  by (induction ls) auto

lemma reorder_canonical_generic:
  assumes rule: "header_rule site (date_of fts) = Rule cols_to_add renaming_dict"
      and hdr: "final_header self site = Inr new_order"
      and canon: "columns df = new_order"
      and d1: "distinct new_order"
      and d2: "distinct cols_to_add"
      and sub: "set cols_to_add \<subseteq> set new_order"
      and idn: "\<forall>l\<in>set new_order. rename_label renaming_dict l = l"
  shows "reorder_headers self site fts df =
           Inr (df\<lparr>cols := concat (map (\<lambda>c. if fst c \<in> set cols_to_add then [c, c] else [c]) (cols df))\<rparr>)"
proof -
  let ?A = "map (\<lambda>l. (l, the (map_of (cols df) l))) cols_to_add"
  have dc: "distinct (map fst (cols df))" using d1 canon by (simp add: columns_def)
  have sub': "set cols_to_add \<subseteq> fst ` set (cols df)" using sub canon by (auto simp: columns_def)
  have re: "reindex_columns (columns df @ cols_to_add) NaN df = Inr (df\<lparr>cols := cols df @ ?A\<rparr>)"
    using dc reindex_own_columns [OF dc, of "replicate (nrows df) NaN"]
      reindex_old_columns [OF sub', of "replicate (nrows df) NaN"]
    by (simp add: reindex_columns_def columns_def)
  have "\<And>c. c \<in> set (cols df @ ?A) \<Longrightarrow> rename_label renaming_dict (fst c) = fst c"
  proof -
    fix c assume "c \<in> set (cols df @ ?A)"
    then have "fst c \<in> set new_order" using sub canon by (auto simp: columns_def)
    then show "rename_label renaming_dict (fst c) = fst c" using idn by blast
  qed
  then have "map (\<lambda>c. (rename_label renaming_dict (fst c), snd c)) (cols df @ ?A) = map (\<lambda>c. c) (cols df @ ?A)"
    by (intro map_cong) auto
  then have rn: "rename_columns renaming_dict (df\<lparr>cols := cols df @ ?A\<rparr>) = df\<lparr>cols := cols df @ ?A\<rparr>"
    by (simp add: rename_columns_def)
  have inc: "set new_order \<subseteq> set (columns (df\<lparr>cols := cols df @ ?A\<rparr>))"
    using canon by (auto simp: columns_def)
  have each: "\<And>c. c \<in> set (cols df) \<Longrightarrow>
      filter (\<lambda>c'. fst c' = fst c) (cols df @ ?A) = (if fst c \<in> set cols_to_add then [c, c] else [c])"
  proof -
    fix c assume c: "c \<in> set (cols df)"
    then have m: "map_of (cols df) (fst c) = Some (snd c)" using dc by simp
    have 1: "filter (\<lambda>c'. fst c' = fst c) (cols df) = [c]"
      using filter_label_distinct [OF dc, of "fst c"] c m by auto
    have "filter (\<lambda>c'. fst c' = fst c) ?A
          = map (\<lambda>l. (l, the (map_of (cols df) l))) (filter (\<lambda>l'. l' = fst c) cols_to_add)"
      by (simp add: filter_map comp_def)
    also have "\<dots> = (if fst c \<in> set cols_to_add then [c] else [])"
      using m by (simp add: filter_eq_distinct [OF d2])
    finally show "filter (\<lambda>c'. fst c' = fst c) (cols df @ ?A) = (if fst c \<in> set cols_to_add then [c, c] else [c])"
      using 1 by simp
  qed
  have "map (\<lambda>l. filter (\<lambda>c'. fst c' = l) (cols df @ ?A)) new_order
        = map (\<lambda>c. filter (\<lambda>c'. fst c' = fst c) (cols df @ ?A)) (cols df)"
  proof -
    have "new_order = map fst (cols df)" using canon by (simp add: columns_def)
    then show ?thesis by (simp only: map_map comp_def)
  qed
  also have "\<dots> = map (\<lambda>c. if fst c \<in> set cols_to_add then [c, c] else [c]) (cols df)"
    using each by (intro map_cong) auto
  finally have "getitem_list new_order (df\<lparr>cols := cols df @ ?A\<rparr>)
      = Inr (df\<lparr>cols := concat (map (\<lambda>c. if fst c \<in> set cols_to_add then [c, c] else [c]) (cols df))\<rparr>)"
    using inc by (simp add: getitem_list_def)
  then show ?thesis using rule hdr re rn by (simp add: reorder_headers_def)
qed

lemma rule_ok_all:
  "rule_ok ''NF17'' 0" "rule_ok ''NF17'' 20000" "rule_ok ''NF3'' 0" "rule_ok ''NF3'' 20000"
  "rule_ok ''SF4'' 0" "rule_ok ''SF7'' 0" "rule_ok ''SF7'' 20000" "rule_ok ''UF3'' 20000"
  by code_simp+

lemma rule_okD:
  "rule_ok site d0 \<Longrightarrow> header_rule site d0 = Rule a r \<Longrightarrow> map_of final_headers site = Some h \<Longrightarrow>
   distinct h \<and> distinct a \<and> a \<noteq> [] \<and> set a \<subseteq> set h \<and> (\<forall>l\<in>set h. rename_label r l = l)"
  by (auto simp: rule_ok_def list_all_iff)

lemma rule_date_NF17:
  "header_rule ''NF17'' d = Rule a r \<Longrightarrow>
   header_rule ''NF17'' 0 = Rule a r \<or> header_rule ''NF17'' 20000 = Rule a r"
proof -
  assume r: "header_rule ''NF17'' d = Rule a r"
  consider "d < days_from_civil 2019 5 19" | "d > days_from_civil 2019 5 19" | "d = days_from_civil 2019 5 19"
    by linarith
  then show ?thesis
  proof cases
    case 1
    then have "header_rule ''NF17'' d = header_rule ''NF17'' 0"
      by (simp add: header_rule_def days_from_civil_def)
    with r show ?thesis by simp
  next
    case 2
    then have "header_rule ''NF17'' d = header_rule ''NF17'' 20000"
      by (simp add: header_rule_def days_from_civil_def)
    with r show ?thesis by simp
  next
    case 3
    then have "header_rule ''NF17'' d = Maintenance" by (simp add: header_rule_def)
    with r show ?thesis by simp
  qed
qed

lemma rule_date_NF3:
  "header_rule ''NF3'' d = Rule a r \<Longrightarrow>
   header_rule ''NF3'' 0 = Rule a r \<or> header_rule ''NF3'' 20000 = Rule a r"
proof -
  assume r: "header_rule ''NF3'' d = Rule a r"
  consider "d < days_from_civil 2019 5 19" | "d > days_from_civil 2019 5 19" | "d = days_from_civil 2019 5 19"
    by linarith
  then show ?thesis
  proof cases
    case 1
    then have "header_rule ''NF3'' d = header_rule ''NF3'' 0"
      by (simp add: header_rule_def days_from_civil_def)
    with r show ?thesis by simp
  next
    case 2
    then have "header_rule ''NF3'' d = header_rule ''NF3'' 20000"
      by (simp add: header_rule_def days_from_civil_def)
    with r show ?thesis by simp
  next
    case 3
    then have "header_rule ''NF3'' d = Maintenance" by (simp add: header_rule_def)
    with r show ?thesis by simp
  qed
qed

lemma rule_date_SF7:
  "header_rule ''SF7'' d = Rule a r \<Longrightarrow>
   header_rule ''SF7'' 0 = Rule a r \<or> header_rule ''SF7'' 20000 = Rule a r"
proof -
  assume r: "header_rule ''SF7'' d = Rule a r"
  consider "d < days_from_civil 2019 5 19" | "d > days_from_civil 2019 5 19" | "d = days_from_civil 2019 5 19"
    by linarith
  then show ?thesis
  proof cases
    case 1
    then have "header_rule ''SF7'' d = header_rule ''SF7'' 0"
      by (simp add: header_rule_def days_from_civil_def)
    with r show ?thesis by simp
  next
    case 2
    then have "header_rule ''SF7'' d = header_rule ''SF7'' 20000"
      by (simp add: header_rule_def days_from_civil_def)
    with r show ?thesis by simp
  next
    case 3
    then have "header_rule ''SF7'' d = Maintenance" by (simp add: header_rule_def)
    with r show ?thesis by simp
  qed
qed

lemma rule_date_SF4:
  "header_rule ''SF4'' d = Rule a r \<Longrightarrow> header_rule ''SF4'' 0 = Rule a r"
proof -
  assume r: "header_rule ''SF4'' d = Rule a r"
  show ?thesis
  proof (cases "d < days_from_civil 2100 11 19")
    case True
    then have "header_rule ''SF4'' d = header_rule ''SF4'' 0"
      by (simp add: header_rule_def days_from_civil_def)
    with r show ?thesis by simp
  next
    case False
    then have "header_rule ''SF4'' d = NoRule" by (simp add: header_rule_def)
    with r show ?thesis by simp
  qed
qed

lemma rule_date_UF3:
  "header_rule ''UF3'' d = Rule a r \<Longrightarrow> header_rule ''UF3'' 20000 = Rule a r"
proof -
  assume r: "header_rule ''UF3'' d = Rule a r"
  show ?thesis
  proof (cases "d > days_from_civil 2019 2 13")
    case True
    then have "header_rule ''UF3'' d = header_rule ''UF3'' 20000"
      by (simp add: header_rule_def days_from_civil_def)
    with r show ?thesis by simp
  next
    case False
    then have "header_rule ''UF3'' d = NoRule" by (simp add: header_rule_def)
    with r show ?thesis by simp
  qed
qed

lemma rule_site:
  "header_rule site d = Rule a r \<Longrightarrow>
   site = ''NF17'' \<or> site = ''NF3'' \<or> site = ''SF4'' \<or> site = ''SF7'' \<or> site = ''UF3''"
  by (rule ccontr) (simp add: header_rule_def)

lemma rule_table_facts:
  assumes rule: "header_rule site d = Rule cols_to_add renaming_dict"
      and hdr: "map_of final_headers site = Some new_order"
  shows "distinct new_order \<and> distinct cols_to_add \<and> cols_to_add \<noteq> []
       \<and> set cols_to_add \<subseteq> set new_order
       \<and> (\<forall>l\<in>set new_order. rename_label renaming_dict l = l)"
proof -
  consider "site = ''NF17''" | "site = ''NF3''" | "site = ''SF4''" | "site = ''SF7''" | "site = ''UF3''"
    using rule_site [OF rule] by blast
  then show ?thesis
  proof cases
    case 1
    with rule have "header_rule ''NF17'' 0 = Rule cols_to_add renaming_dict
        \<or> header_rule ''NF17'' 20000 = Rule cols_to_add renaming_dict"
      by (intro rule_date_NF17) simp
    then show ?thesis
      using rule_okD [OF rule_ok_all(1)] rule_okD [OF rule_ok_all(2)] hdr 1 by blast
  next
    case 2
    with rule have "header_rule ''NF3'' 0 = Rule cols_to_add renaming_dict
        \<or> header_rule ''NF3'' 20000 = Rule cols_to_add renaming_dict"
      by (intro rule_date_NF3) simp
    then show ?thesis
      using rule_okD [OF rule_ok_all(3)] rule_okD [OF rule_ok_all(4)] hdr 2 by blast
  next
    case 3
    with rule have "header_rule ''SF4'' 0 = Rule cols_to_add renaming_dict"
      by (intro rule_date_SF4) simp
    then show ?thesis
      using rule_okD [OF rule_ok_all(5)] hdr 3 by blast
  next
    case 4
    with rule have "header_rule ''SF7'' 0 = Rule cols_to_add renaming_dict
        \<or> header_rule ''SF7'' 20000 = Rule cols_to_add renaming_dict"
      by (intro rule_date_SF7) simp
    then show ?thesis
      using rule_okD [OF rule_ok_all(6)] rule_okD [OF rule_ok_all(7)] hdr 4 by blast
  next
    case 5
    with rule have "header_rule ''UF3'' 20000 = Rule cols_to_add renaming_dict"
      by (intro rule_date_UF3) simp
    then show ?thesis
      using rule_okD [OF rule_ok_all(8)] hdr 5 by blast
  qed
qed

lemma sf4_rule:
  "header_rule ''SF4'' (date_of 1577836800000) =
     Rule [''flag_SON_SF4'']
          [(''Ux'', ''Ux_SON_SF4''), (''Uy'', ''Uy_SON_SF4''), (''Uz'', ''Uz_SON_SF4''),
           (''Ts'', ''Ts_SON_SF4''), (''diag_sonic'', ''DIAG_SON_SF4''),
           (''CO2'', ''CO2_IRGA_SF4''), (''H2O'', ''H2O_IRGA_SF4''),
           (''diag_irga'', ''DIAG_IRGA_SF4''), (''cell_tmpr'', ''TCELL_IRGA_SF4''),
           (''cell_press'', ''PCELL_IRGA_SF4'')]"
  by (simp add: header_rule_def date_of_def days_from_civil_def)

lemma sf4_header:
  "final_header sf4_engine ''SF4'' =
     Inr [''TIMESTAMP'', ''RECORD'', ''Ux_SON_SF4'', ''Uy_SON_SF4'', ''Uz_SON_SF4'', ''Ts_SON_SF4'',
          ''CO2_IRGA_SF4'', ''H2O_IRGA_SF4'', ''PCELL_IRGA_SF4'', ''TCELL_IRGA_SF4'',
          ''DIAG_SON_SF4'', ''flag_SON_SF4'', ''DIAG_IRGA_SF4'']"
  by (simp add: final_header_def final_headers_def sf4_engine_def)

theorem reorder_headers_columns_witness:
  "distinct (map (rename_label
          [(''Ux'', ''Ux_SON_SF4''), (''Uy'', ''Uy_SON_SF4''), (''Uz'', ''Uz_SON_SF4''),
           (''Ts'', ''Ts_SON_SF4''), (''diag_sonic'', ''DIAG_SON_SF4''),
           (''CO2'', ''CO2_IRGA_SF4''), (''H2O'', ''H2O_IRGA_SF4''),
           (''diag_irga'', ''DIAG_IRGA_SF4''), (''cell_tmpr'', ''TCELL_IRGA_SF4''),
           (''cell_press'', ''PCELL_IRGA_SF4'')]) (columns sf4_raw_frame @ [''flag_SON_SF4'']))
   \<and> (\<exists>df'. reorder_headers sf4_engine ''SF4'' 1577836800000 sf4_raw_frame = Inr df'
          \<and> columns df' =
              [''TIMESTAMP'', ''RECORD'', ''Ux_SON_SF4'', ''Uy_SON_SF4'', ''Uz_SON_SF4'',
               ''Ts_SON_SF4'', ''CO2_IRGA_SF4'', ''H2O_IRGA_SF4'', ''PCELL_IRGA_SF4'',
               ''TCELL_IRGA_SF4'', ''DIAG_SON_SF4'', ''flag_SON_SF4'', ''DIAG_IRGA_SF4''])
   \<and> reorder_headers sf4_engine ''SF4'' 1577836800000 (drop_label ''Ux'' sf4_raw_frame) = Inl KeyError"
proof -
  let ?rd = "[(''Ux'', ''Ux_SON_SF4''), (''Uy'', ''Uy_SON_SF4''), (''Uz'', ''Uz_SON_SF4''),
           (''Ts'', ''Ts_SON_SF4''), (''diag_sonic'', ''DIAG_SON_SF4''),
           (''CO2'', ''CO2_IRGA_SF4''), (''H2O'', ''H2O_IRGA_SF4''),
           (''diag_irga'', ''DIAG_IRGA_SF4''), (''cell_tmpr'', ''TCELL_IRGA_SF4''),
           (''cell_press'', ''PCELL_IRGA_SF4'')]"
  let ?h = "[''TIMESTAMP'', ''RECORD'', ''Ux_SON_SF4'', ''Uy_SON_SF4'', ''Uz_SON_SF4'',
               ''Ts_SON_SF4'', ''CO2_IRGA_SF4'', ''H2O_IRGA_SF4'', ''PCELL_IRGA_SF4'',
               ''TCELL_IRGA_SF4'', ''DIAG_SON_SF4'', ''flag_SON_SF4'', ''DIAG_IRGA_SF4'']"
  have d: "distinct (map (rename_label ?rd) (columns sf4_raw_frame @ [''flag_SON_SF4'']))"
    by code_simp
  have s: "set ?h \<subseteq> rename_label ?rd ` (set (columns sf4_raw_frame) \<union> set [''flag_SON_SF4''])"
    by code_simp
  have d': "distinct (map (rename_label ?rd) (columns (drop_label ''Ux'' sf4_raw_frame) @ [''flag_SON_SF4'']))"
    by code_simp
  have s': "\<not> set ?h \<subseteq> rename_label ?rd ` (set (columns (drop_label ''Ux'' sf4_raw_frame)) \<union> set [''flag_SON_SF4''])"
    by code_simp
  from reorder_headers_columns [OF sf4_rule sf4_header d] s
    reorder_headers_columns [OF sf4_rule sf4_header d'] s' d
  show ?thesis by blast
qed

text \<open>
  Claim C2 as stated fails: for a frame that lacks columns of the final header, the selection
  \<open>df[new_order]\<close> raises KeyError.
\<close>

theorem reorder_headers_missing_column_counterexample:
  "reorder_headers sf4_engine ''SF4'' 1577836800000
     \<lparr>index = [0], cols = [(''TIMESTAMP'', [Stamp 1577836800100]), (''Ux'', [Num 1])]\<rparr>
   = Inl KeyError"
  by code_simp

lemma length_concat_dup:
  "length (concat (map (\<lambda>c. if P c then [c, c] else [c]) xs)) = length xs + length (filter P xs)"
  by (induction xs) auto

text \<open>
  Claim C8, as the code has it.  For a site and a date with an entry in the table, a frame that
  already has exactly the final header is returned with every column kept, in order and with its
  values, but with each of the entry's columns to add twice: the result is not the input.
\<close>

theorem reorder_headers_canonical_frame:
  assumes rule: "header_rule site (date_of fts) = Rule cols_to_add renaming_dict"
      and hdr: "final_header self site = Inr new_order"
      and canon: "columns df = new_order"
  shows "reorder_headers self site fts df =
           Inr (df\<lparr>cols := concat (map (\<lambda>c. if fst c \<in> set cols_to_add then [c, c] else [c]) (cols df))\<rparr>)
       \<and> reorder_headers self site fts df \<noteq> Inr df"
proof -
  have m: "map_of final_headers site = Some new_order"
    using hdr by (simp add: final_header_def split: if_splits option.splits)
  note f = rule_table_facts [OF rule m]
  have 1: "reorder_headers self site fts df =
           Inr (df\<lparr>cols := concat (map (\<lambda>c. if fst c \<in> set cols_to_add then [c, c] else [c]) (cols df))\<rparr>)"
    using reorder_canonical_generic [OF rule hdr canon] f by blast
  obtain l where l: "l \<in> set cols_to_add" using f by (cases cols_to_add) auto
  then have "l \<in> fst ` set (cols df)" using f canon by (auto simp: columns_def)
  then have "filter (\<lambda>c. fst c \<in> set cols_to_add) (cols df) \<noteq> []"
    using l by (auto simp: filter_empty_conv)
  then have "length (concat (map (\<lambda>c. if fst c \<in> set cols_to_add then [c, c] else [c]) (cols df)))
             \<noteq> length (cols df)"
    by (simp add: length_concat_dup)
  then have "cols (df\<lparr>cols := concat (map (\<lambda>c. if fst c \<in> set cols_to_add then [c, c] else [c]) (cols df))\<rparr>)
             \<noteq> cols df"
    by auto
  then have "df\<lparr>cols := concat (map (\<lambda>c. if fst c \<in> set cols_to_add then [c, c] else [c]) (cols df))\<rparr> \<noteq> df"
    by metis
  with 1 show ?thesis by simp
qed

theorem reorder_headers_canonical_frame_witness:
  "columns sf4_canonical_frame =
     [''TIMESTAMP'', ''RECORD'', ''Ux_SON_SF4'', ''Uy_SON_SF4'', ''Uz_SON_SF4'', ''Ts_SON_SF4'',
      ''CO2_IRGA_SF4'', ''H2O_IRGA_SF4'', ''PCELL_IRGA_SF4'', ''TCELL_IRGA_SF4'',
      ''DIAG_SON_SF4'', ''flag_SON_SF4'', ''DIAG_IRGA_SF4'']
   \<and> reorder_headers sf4_engine ''SF4'' 1577836800000 sf4_canonical_frame =
     Inr \<lparr>index = [0],
      cols = [(''TIMESTAMP'', [Stamp 1577836800100]), (''RECORD'', [Num 0]),
              (''Ux_SON_SF4'', [Num 1]), (''Uy_SON_SF4'', [Num 3]), (''Uz_SON_SF4'', [Num 0]),
              (''Ts_SON_SF4'', [Num 21]), (''CO2_IRGA_SF4'', [Num 700]),
              (''H2O_IRGA_SF4'', [Num 9]), (''PCELL_IRGA_SF4'', [Num 77]),
              (''TCELL_IRGA_SF4'', [Num 30]), (''DIAG_SON_SF4'', [Num 0]),
              (''flag_SON_SF4'', [Num 0]), (''flag_SON_SF4'', [Num 0]),
              (''DIAG_IRGA_SF4'', [Num 0])]\<rparr>"
proof -
  have c: "columns sf4_canonical_frame =
     [''TIMESTAMP'', ''RECORD'', ''Ux_SON_SF4'', ''Uy_SON_SF4'', ''Uz_SON_SF4'', ''Ts_SON_SF4'',
      ''CO2_IRGA_SF4'', ''H2O_IRGA_SF4'', ''PCELL_IRGA_SF4'', ''TCELL_IRGA_SF4'',
      ''DIAG_SON_SF4'', ''flag_SON_SF4'', ''DIAG_IRGA_SF4'']"
    by (simp add: columns_def sf4_canonical_frame_def)
  from reorder_headers_canonical_frame [OF sf4_rule sf4_header c, THEN conjunct1] c
  show ?thesis by (simp add: sf4_canonical_frame_def)
qed

text \<open>
  Claim C8 as stated fails: harmonizing a frame that has the final header of SF4 does not return
  that frame.
\<close>

theorem reorder_headers_not_idempotent_counterexample:
  "reorder_headers sf4_engine ''SF4'' 1577836800000 sf4_canonical_frame \<noteq> Inr sf4_canonical_frame"
  by code_simp

lemma update_metadata_Inr:
  assumes "update_metadata fs dfts ts fn e = Inr e'"
  shows "\<exists>f. map_of fs fn = Some f
       \<and> ifile e < length (rawfile_metadata e)
       \<and> length (py_split field_separator (butlast (tl (first_line f)))) = 8
       \<and> e' = e\<lparr>rawfile_metadata := (rawfile_metadata e)
                   [ifile e := [MTime dfts, MOutPath dfts, MTime ts, MPath fn]
                       @ map MStr (py_split field_separator (butlast (tl (first_line f))))],
                 ifile := ifile e + 1\<rparr>"
  using assms
  by (auto simp: update_metadata_def Let_def metadata_columns_def split: option.splits if_splits)

lemma files_loop_metadata:
  assumes "files_loop self fs dfts site next acc e = Inr (acc', e')"
  shows "ifile e' = ifile e + length next
       \<and> length (rawfile_metadata e') = length (rawfile_metadata e)
       \<and> fns_temp e' = fns_temp e \<and> file_tss_temp e' = file_tss_temp e
       \<and> (\<forall>j < length next. \<exists>f. map_of fs (fst (next ! j)) = Some f
             \<and> length (py_split field_separator (butlast (tl (first_line f)))) = 8
             \<and> ifile e + j < length (rawfile_metadata e)
             \<and> rawfile_metadata e' ! (ifile e + j) =
                 [MTime dfts, MOutPath dfts, MTime (snd (next ! j)), MPath (fst (next ! j))]
                 @ map MStr (py_split field_separator (butlast (tl (first_line f)))))
       \<and> (\<forall>i. i < ifile e \<or> ifile e + length next \<le> i \<longrightarrow>
              rawfile_metadata e' ! i = rawfile_metadata e ! i)"
  using assms
proof (induction "next" arbitrary: acc e)
  case Nil
  then show ?case by simp
next
  case (Cons p rest)
  obtain fn ts where p: "p = (fn, ts)" by (cases p)
  from Cons.prems p obtain rd e1 where
    u: "update_metadata fs dfts ts fn e = Inr e1" and
    l: "files_loop self fs dfts site rest (Some rd) e1 = Inr (acc', e')"
    by (auto split: sum.splits option.splits)
  from update_metadata_Inr [OF u] obtain f where
    f: "map_of fs fn = Some f" and
    free: "ifile e < length (rawfile_metadata e)" and
    n8: "length (py_split field_separator (butlast (tl (first_line f)))) = 8" and
    e1: "e1 = e\<lparr>rawfile_metadata := (rawfile_metadata e)
                   [ifile e := [MTime dfts, MOutPath dfts, MTime ts, MPath fn]
                       @ map MStr (py_split field_separator (butlast (tl (first_line f))))],
                 ifile := ifile e + 1\<rparr>"
    by blast
  note IH = Cons.IH [OF l]
  have i1: "ifile e1 = ifile e + 1" and len1: "length (rawfile_metadata e1) = length (rawfile_metadata e)"
    and q1: "fns_temp e1 = fns_temp e" "file_tss_temp e1 = file_tss_temp e"
    using e1 by simp_all
  have keep: "rawfile_metadata e' ! ifile e = rawfile_metadata e1 ! ifile e"
    using IH i1 by simp
  have row0: "rawfile_metadata e1 ! ifile e =
      [MTime dfts, MOutPath dfts, MTime ts, MPath fn]
        @ map MStr (py_split field_separator (butlast (tl (first_line f))))"
    using e1 free by simp
  show ?case
  proof (intro conjI allI impI)
    show "ifile e' = ifile e + length (p # rest)" using IH i1 by simp
    show "length (rawfile_metadata e') = length (rawfile_metadata e)" using IH len1 by simp
    show "fns_temp e' = fns_temp e" using IH q1 by simp
    show "file_tss_temp e' = file_tss_temp e" using IH q1 by simp
  next
    fix j assume j: "j < length (p # rest)"
    show "\<exists>f. map_of fs (fst ((p # rest) ! j)) = Some f
             \<and> length (py_split field_separator (butlast (tl (first_line f)))) = 8
             \<and> ifile e + j < length (rawfile_metadata e)
             \<and> rawfile_metadata e' ! (ifile e + j) =
                 [MTime dfts, MOutPath dfts, MTime (snd ((p # rest) ! j)), MPath (fst ((p # rest) ! j))]
                 @ map MStr (py_split field_separator (butlast (tl (first_line f))))"
    proof (cases j)
      case 0
      then show ?thesis using f n8 free keep row0 p by simp
    next
      case (Suc j')
      then have "j' < length rest" using j by simp
      with IH obtain f' where "map_of fs (fst (rest ! j')) = Some f'"
        "length (py_split field_separator (butlast (tl (first_line f')))) = 8"
        "ifile e1 + j' < length (rawfile_metadata e1)"
        "rawfile_metadata e' ! (ifile e1 + j') =
                 [MTime dfts, MOutPath dfts, MTime (snd (rest ! j')), MPath (fst (rest ! j'))]
                 @ map MStr (py_split field_separator (butlast (tl (first_line f'))))"
        by blast
      then show ?thesis using Suc i1 len1 by auto
    qed
  next
    fix i assume i: "i < ifile e \<or> ifile e + length (p # rest) \<le> i"
    then have "i < ifile e1 \<or> ifile e1 + length rest \<le> i" using i1 by auto
    then have "rawfile_metadata e' ! i = rawfile_metadata e1 ! i" using IH by blast
    also have "\<dots> = rawfile_metadata e ! i" using e1 i by auto
    finally show "rawfile_metadata e' ! i = rawfile_metadata e ! i" .
  qed
qed

text \<open>
  Claim C9, as the code has it.  When the assembly of a site's frame for an interval returns,
  each file it popped from the queue has got one row of the site's metadata table, at the rows
  that follow the row counter before the call, in the order of the files; the counter has
  advanced by their number and the other rows are as before.  The row of a file is the time
  stamp of the interval, the output path, the time stamp and the path of the file, and the
  fields of the first line of the file, which are eight (the table has twelve columns).
\<close>

theorem assemble_metadata_records:
  assumes "assemble self fs dfts site e = Inr (rawdat, e')"
  shows "let next = fst (pop_files (dfts + file_length self * 60000) (fns_temp e) (file_tss_temp e))
         in ifile e' = ifile e + length next
          \<and> length (rawfile_metadata e') = length (rawfile_metadata e)
          \<and> (\<forall>j < length next. \<exists>f. map_of fs (fst (next ! j)) = Some f
                \<and> length (py_split field_separator (butlast (tl (first_line f)))) = 8
                \<and> ifile e + j < length (rawfile_metadata e)
                \<and> rawfile_metadata e' ! (ifile e + j) =
                    [MTime dfts, MOutPath dfts, MTime (snd (next ! j)), MPath (fst (next ! j))]
                    @ map MStr (py_split field_separator (butlast (tl (first_line f)))))
          \<and> (\<forall>i. i < ifile e \<or> ifile e + length next \<le> i \<longrightarrow>
                 rawfile_metadata e' ! i = rawfile_metadata e ! i)"
proof -
  obtain nx fns' tss' where
    p: "pop_files (dfts + file_length self * 60000) (fns_temp e) (file_tss_temp e) = (nx, fns', tss')"
    by (cases "pop_files (dfts + file_length self * 60000) (fns_temp e) (file_tss_temp e)")
  define e1 where "e1 = e\<lparr>fns_temp := fns', file_tss_temp := tss'\<rparr>"
  have e1: "ifile e1 = ifile e" "rawfile_metadata e1 = rawfile_metadata e"
    by (simp_all add: e1_def)
  show ?thesis
  proof (cases "nx = []")
    case True
    then have "e' = e1" using assms p
      by (auto simp: assemble_def Let_def e1_def split: sum.splits)
    then show ?thesis using True p e1 by (simp add: Let_def)
  next
    case False
    then obtain acc where "files_loop self fs dfts site nx None e1 = Inr (acc, e')"
      using assms p
      by (auto simp: assemble_def Let_def e1_def split: sum.splits option.splits)
    from files_loop_metadata [OF this] show ?thesis
      using p e1 by (simp add: Let_def)
  qed
qed

theorem assemble_metadata_records_witness:
  "\<not> isl (assemble engine_1hz [(sf4_path, sf4_file 1577836801000 1577836802000)]
              1577836800000 ''SF4'' sf4_state)
   \<and> ifile (snd (projr (assemble engine_1hz [(sf4_path, sf4_file 1577836801000 1577836802000)]
              1577836800000 ''SF4'' sf4_state))) = 1
   \<and> rawfile_metadata (snd (projr (assemble engine_1hz
              [(sf4_path, sf4_file 1577836801000 1577836802000)]
              1577836800000 ''SF4'' sf4_state))) ! 0
     = [MTime 1577836800000, MOutPath 1577836800000, MTime 1577836800000, MPath sf4_path,
        MStr ''TOA5'', MStr ''SF4'', MStr ''CR3000'', MStr ''4711'', MStr ''CR3000.Std.31'',
        MStr ''CPU:ec.CR3'', MStr ''1234'', MStr (''ts_data'' @ [CHR 0x22])]"
proof -
  let ?fs = "[(sf4_path, sf4_file 1577836801000 1577836802000)]"
  let ?a = "assemble engine_1hz ?fs 1577836800000 ''SF4'' sf4_state"
  have n: "\<not> isl ?a" by code_simp
  then obtain rd e' where a: "?a = Inr (rd, e')" by (cases ?a) auto
  have nx: "fst (pop_files (1577836800000 + file_length engine_1hz * 60000)
              (fns_temp sf4_state) (file_tss_temp sf4_state)) = [(sf4_path, 1577836800000)]"
    by (simp add: engine_1hz_def sf4_state_def)
  have sp: "py_split field_separator
              (butlast (tl (first_line (sf4_file 1577836801000 1577836802000))))
            = [''TOA5'', ''SF4'', ''CR3000'', ''4711'', ''CR3000.Std.31'', ''CPU:ec.CR3'', ''1234'',
               ''ts_data'' @ [CHR 0x22]]"
    by code_simp
  have i0: "ifile sf4_state = 0" by (simp add: sf4_state_def)
  from assemble_metadata_records [OF a] nx sp i0
  have "ifile e' = 1"
    and "rawfile_metadata e' ! 0
     = [MTime 1577836800000, MOutPath 1577836800000, MTime 1577836800000, MPath sf4_path,
        MStr ''TOA5'', MStr ''SF4'', MStr ''CR3000'', MStr ''4711'', MStr ''CR3000.Std.31'',
        MStr ''CPU:ec.CR3'', MStr ''1234'', MStr (''ts_data'' @ [CHR 0x22])]"
    by (simp_all add: Let_def)
  with n a show ?thesis by simp
qed

text \<open>
  Claim C9 as stated fails: a first line of twelve fields gives a row of sixteen entries,
  which the table of twelve columns refuses (ValueError); the row written for a file with the
  eight fields of a TOA5 header has twelve entries.
\<close>

theorem metadata_twelve_fields_counterexample:
  "update_metadata
     [(sf4_path, \<lparr>first_line = toa5_line [''TOA5'', ''SF4'', ''CR3000'', ''4711'', ''CR3000.Std.31'',
                                           ''CPU:ec.CR3'', ''1234'', ''ts_data'', ''f9'', ''f10'',
                                           ''f11'', ''f12''],
                  table = sf4_table 1577836801000 1577836802000\<rparr>)]
     1577836800000 1577836800000 sf4_path sf4_state = Inl ValueError
   \<and> length (rawfile_metadata (projr (update_metadata
        [(sf4_path, sf4_file 1577836801000 1577836802000)]
        1577836800000 1577836800000 sf4_path sf4_state)) ! 0) = 12"
  by code_simp

lemma date_range_sorted_distinct:
  "0 < p \<Longrightarrow> sorted (date_range s n p) \<and> distinct (date_range s n p)"
proof -
  assume p: "0 < p"
  have "strict_mono (\<lambda>i::nat. s + int i * p)"
    using p by (auto intro!: strict_monoI)
  then have m: "mono (\<lambda>i::nat. s + int i * p)" and i: "inj (\<lambda>i::nat. s + int i * p)"
    by (auto dest: strict_mono_mono strict_mono_imp_inj_on)
  have "sorted (map (\<lambda>i::nat. s + int i * p) [0..<n])"
    using m by (simp add: sorted_map mono_def sorted_wrt_iff_nth_less)
  moreover have "distinct (map (\<lambda>i::nat. s + int i * p) [0..<n])"
    using i by (simp add: distinct_map inj_on_def)
  ultimately show ?thesis by (simp add: date_range_def)
qed

lemma length_filter_enumerate:
  "length (filter (\<lambda>p. snd p = k) (enumerate n xs)) = length (filter (\<lambda>x. x = k) xs)"
  by (induction xs arbitrary: n) auto

lemma length_positions: "length (positions k xs) = length (filter (\<lambda>x. x = k) xs)"
  by (simp add: positions_def length_filter_enumerate)

lemma positions_absent: "k \<notin> set xs \<Longrightarrow> positions k xs = []"
proof -
  assume "k \<notin> set xs"
  then have "filter (\<lambda>x. x = k) xs = []" by (auto simp: filter_empty_conv)
  then have "length (positions k xs) = 0" by (simp add: length_positions)
  then show ?thesis by simp
qed

lemma positions_distinct:
  "distinct xs \<Longrightarrow> k \<in> set xs \<Longrightarrow> \<exists>i. positions k xs = [i]"
proof -
  assume d: "distinct xs" and k: "k \<in> set xs"
  have "length (filter (\<lambda>x. x = k) xs) = 1"
    using d k by (induction xs) (auto simp: filter_empty_conv)
  then have "length (positions k xs) = 1" by (simp add: length_positions)
  then show ?thesis by (cases "positions k xs") auto
qed

lemma join_keys_axis:
  "sorted l \<Longrightarrow> distinct l \<Longrightarrow> set r \<subseteq> set l \<Longrightarrow> sort (remdups (l @ r)) = l"
proof -
  assume s: "sorted l" and d: "distinct l" and sub: "set r \<subseteq> set l"
  have "set (sort (remdups (l @ r))) = set l" using sub by auto
  moreover have "sorted (sort (remdups (l @ r)))" by simp
  moreover have "distinct (sort (remdups (l @ r)))" by simp
  ultimately show ?thesis using s d by (intro sorted_distinct_set_unique) auto
qed

lemma join_rows_axis:
  assumes "sorted l" and "distinct l" and "distinct r" and "set r \<subseteq> set l"
  shows "map fst (join_rows l r) = l"
proof -
  let ?g = "\<lambda>k. let li = positions k l; ri = positions k r
                 in if li = [] then map (\<lambda>j. (k, None, Some j)) ri
                    else if ri = [] then map (\<lambda>i. (k, Some i, None)) li
                    else concat (map (\<lambda>i. map (\<lambda>j. (k, Some i, Some j)) ri) li)"
  have one: "\<And>k. k \<in> set l \<Longrightarrow> map fst (?g k) = [k]"
  proof -
    fix k assume k: "k \<in> set l"
    obtain i where li: "positions k l = [i]" using positions_distinct [OF assms(2) k] by blast
    show "map fst (?g k) = [k]"
    proof (cases "k \<in> set r")
      case True
      obtain j where "positions k r = [j]" using positions_distinct [OF assms(3) True] by blast
      with li show ?thesis by simp
    next
      case False
      then have "positions k r = []" by (rule positions_absent)
      with li show ?thesis by simp
    qed
  qed
  have "map fst (join_rows l r) = concat (map (\<lambda>k. map fst (?g k)) l)"
    unfolding join_rows_def join_keys_axis [OF assms(1,2,4)]
    by (simp only: map_concat map_map comp_def)
  also have "\<dots> = concat (map (\<lambda>k. [k]) l)"
    using one by (intro arg_cong [where f = concat] map_cong) auto
  also have "\<dots> = l" by (induction l) auto
  finally show ?thesis .
qed

lemma index_merge_outer:
  "index (merge_outer left right) = map fst (join_rows (index left) (index right))"
  by (simp add: merge_outer_def Let_def)

lemma columns_merge_outer:
  "set (columns left) \<inter> set (columns right) = {} \<Longrightarrow>
   columns (merge_outer left right) = columns left @ columns right"
proof -
  assume d: "set (columns left) \<inter> set (columns right) = {}"
  have 1: "\<And>c. c \<in> set (cols left) \<Longrightarrow> fst c \<notin> set (columns right)"
    using d by (auto simp: columns_def)
  have 2: "\<And>c. c \<in> set (cols right) \<Longrightarrow> fst c \<notin> set (columns left)"
    using d by (auto simp: columns_def)
  have "map fst (cols (merge_outer left right))
        = map (\<lambda>c. if fst c \<in> set (columns right) then fst c @ ''_x'' else fst c) (cols left)
          @ map (\<lambda>c. if fst c \<in> set (columns left) then fst c @ ''_y'' else fst c) (cols right)"
    by (simp add: merge_outer_def Let_def comp_def)
  also have "\<dots> = map fst (cols left) @ map fst (cols right)"
    using 1 2 by (auto intro!: map_cong)
  finally show ?thesis by (simp add: columns_def)
qed

lemma sites_loop_index:
  assumes "sorted (index dat)" and "distinct (index dat)" and "distinct sites"
      and "sites_loop self fs dfts sites dat st = Inr (dat', st')"
      and "\<forall>site\<in>set sites. \<forall>e rawdat e'. map_of st site = Some e \<longrightarrow>
             assemble self fs dfts site e = Inr (rawdat, e') \<longrightarrow>
             distinct (index rawdat) \<and> set (index rawdat) \<subseteq> set (index dat)"
  shows "index dat' = index dat"
  using assms
proof (induction sites arbitrary: dat st)
  case Nil
  then show ?case by simp
next
  case (Cons site sites)
  from Cons.prems(4) obtain e rawdat e' where
    m: "map_of st site = Some e" and
    a: "assemble self fs dfts site e = Inr (rawdat, e')" and
    l: "sites_loop self fs dfts sites (merge_outer dat rawdat) (AList.update site e' st) = Inr (dat', st')"
    by (auto split: option.splits sum.splits)
  from Cons.prems(5) m a have r: "distinct (index rawdat)" "set (index rawdat) \<subseteq> set (index dat)"
    by auto
  have i: "index (merge_outer dat rawdat) = index dat"
    using join_rows_axis [OF Cons.prems(1,2) r] by (simp add: index_merge_outer)
  have "index dat' = index (merge_outer dat rawdat)"
  proof (rule Cons.IH [OF _ _ _ l])
    show "sorted (index (merge_outer dat rawdat))" using i Cons.prems(1) by simp
    show "distinct (index (merge_outer dat rawdat))" using i Cons.prems(2) by simp
    show "distinct sites" using Cons.prems(3) by simp
    show "\<forall>s\<in>set sites. \<forall>e rawdat' e''. map_of (AList.update site e' st) s = Some e \<longrightarrow>
             assemble self fs dfts s e = Inr (rawdat', e'') \<longrightarrow>
             distinct (index rawdat') \<and> set (index rawdat') \<subseteq> set (index (merge_outer dat rawdat))"
    proof (intro ballI allI impI)
      fix s e0 rawdat' e''
      assume s: "s \<in> set sites" and m': "map_of (AList.update site e' st) s = Some e0"
        and a': "assemble self fs dfts s e0 = Inr (rawdat', e'')"
      have "s \<noteq> site" using s Cons.prems(3) by auto
      then have "map_of st s = Some e0" using m' by (simp add: update_conv')
      with Cons.prems(5) s a' show "distinct (index rawdat') \<and> set (index rawdat') \<subseteq> set (index (merge_outer dat rawdat))"
        unfolding i by auto
    qed
  qed
  with i show ?case by simp
qed

text \<open>
  Claim C1, as the code has it.  The merge is an outer join on the time stamps.  When
  \<open>process_interval\<close> returns and the frame assembled for each site has distinct time stamps
  that all lie on the desired time index of the interval, the merged frame has that index as
  its row index, hence exactly \<open>n_records\<close> rows.  (A time stamp of a site's frame that is
  not on the desired time index adds a row.)
\<close>

theorem process_interval_row_count:
  assumes "0 < acq_period self" and "distinct (site_names self)"
      and "process_interval self fs st dfts = Inr (dat, written, st')"
      and "\<forall>site\<in>set (site_names self). \<forall>e rawdat e'. map_of st site = Some e \<longrightarrow>
             assemble self fs dfts site e = Inr (rawdat, e') \<longrightarrow>
             distinct (index rawdat) \<and> set (index rawdat) \<subseteq> set (desired_time_index self dfts)"
  shows "index dat = desired_time_index self dfts \<and> int (nrows dat) = n_records self"
proof -
  let ?dat0 = "\<lparr>index = desired_time_index self dfts, cols = []\<rparr>"
  from assms(3) obtain n: "0 \<le> n_records self"
    and l: "sites_loop self fs dfts (site_names self) ?dat0 st = Inr (dat, st')"
    by (auto simp: process_interval_def split: if_splits sum.splits)
  have sd: "sorted (index ?dat0)" "distinct (index ?dat0)"
    using date_range_sorted_distinct [OF assms(1)] by (simp_all add: desired_time_index_def)
  have "index dat = index ?dat0"
    using sites_loop_index [OF sd assms(2) l] assms(4) by simp
  then have i: "index dat = desired_time_index self dfts" by simp
  then have "int (nrows dat) = n_records self"
    using n by (simp add: nrows_def desired_time_index_def date_range_def)
  with i show ?thesis by simp
qed

lemma value_columns_checked:
  "\<forall>s\<in>set (map fst final_headers). distinct (value_columns s)
     \<and> (\<forall>s'\<in>set (map fst final_headers). s \<noteq> s' \<longrightarrow>
           list_all (\<lambda>l. l \<notin> set (value_columns s')) (value_columns s))"
  by code_simp

lemma value_columns_distinct:
  "s \<in> set (map fst final_headers) \<Longrightarrow> distinct (value_columns s)"
  using value_columns_checked by blast

lemma value_columns_disjoint:
  "s \<in> set (map fst final_headers) \<Longrightarrow> s' \<in> set (map fst final_headers) \<Longrightarrow> s \<noteq> s' \<Longrightarrow>
   set (value_columns s) \<inter> set (value_columns s') = {}"
proof -
  assume "s \<in> set (map fst final_headers)" "s' \<in> set (map fst final_headers)" "s \<noteq> s'"
  with value_columns_checked
  have "list_all (\<lambda>l. l \<notin> set (value_columns s')) (value_columns s)" by blast
  then show ?thesis by (auto simp: list_all_iff)
qed

lemma distinct_concat_value_columns:
  "distinct sites \<Longrightarrow> set sites \<subseteq> set (map fst final_headers) \<Longrightarrow>
   distinct (concat (map value_columns sites))"
proof (induction sites)
  case Nil
  then show ?case by simp
next
  case (Cons s sites)
  have "\<And>s'. s' \<in> set sites \<Longrightarrow> set (value_columns s) \<inter> set (value_columns s') = {}"
    using Cons.prems by (intro value_columns_disjoint) auto
  then have "set (value_columns s) \<inter> set (concat (map value_columns sites)) = {}"
    by auto
  moreover have "distinct (value_columns s)" using Cons.prems by (intro value_columns_distinct) auto
  moreover have "distinct (concat (map value_columns sites))" using Cons by simp
  ultimately show ?case by simp
qed

lemma sites_loop_columns:
  assumes "distinct sites" and "set sites \<subseteq> set (map fst final_headers)"
      and "sites_loop self fs dfts sites dat st = Inr (dat', st')"
      and "\<forall>site\<in>set sites. \<forall>e rawdat e'. map_of st site = Some e \<longrightarrow>
             assemble self fs dfts site e = Inr (rawdat, e') \<longrightarrow>
             columns rawdat = value_columns site"
      and "\<forall>site\<in>set sites. set (columns dat) \<inter> set (value_columns site) = {}"
  shows "columns dat' = columns dat @ concat (map value_columns sites)"
  using assms
proof (induction sites arbitrary: dat st)
  case Nil
  then show ?case by simp
next
  case (Cons site sites)
  from Cons.prems(3) obtain e rawdat e' where
    m: "map_of st site = Some e" and
    a: "assemble self fs dfts site e = Inr (rawdat, e')" and
    l: "sites_loop self fs dfts sites (merge_outer dat rawdat) (AList.update site e' st) = Inr (dat', st')"
    by (auto split: option.splits sum.splits)
  from Cons.prems(4) m a have r: "columns rawdat = value_columns site" by auto
  have c: "columns (merge_outer dat rawdat) = columns dat @ value_columns site"
    using Cons.prems(5) r by (simp add: columns_merge_outer)
  have "columns dat' = columns (merge_outer dat rawdat) @ concat (map value_columns sites)"
  proof (rule Cons.IH [OF _ _ l])
    show "distinct sites" using Cons.prems(1) by simp
    show "set sites \<subseteq> set (map fst final_headers)" using Cons.prems(2) by simp
    show "\<forall>s\<in>set sites. \<forall>e rawdat' e''. map_of (AList.update site e' st) s = Some e \<longrightarrow>
             assemble self fs dfts s e = Inr (rawdat', e'') \<longrightarrow> columns rawdat' = value_columns s"
    proof (intro ballI allI impI)
      fix s e0 rawdat' e''
      assume s: "s \<in> set sites" and m': "map_of (AList.update site e' st) s = Some e0"
        and a': "assemble self fs dfts s e0 = Inr (rawdat', e'')"
      have "s \<noteq> site" using s Cons.prems(1) by auto
      then have "map_of st s = Some e0" using m' by (simp add: update_conv')
      with Cons.prems(4) s a' show "columns rawdat' = value_columns s" by auto
    qed
    show "\<forall>s\<in>set sites. set (columns (merge_outer dat rawdat)) \<inter> set (value_columns s) = {}"
    proof
      fix s assume s: "s \<in> set sites"
      then have "s \<noteq> site" using Cons.prems(1) by auto
      then have "set (value_columns site) \<inter> set (value_columns s) = {}"
        using s Cons.prems(2) by (intro value_columns_disjoint) auto
      moreover have "set (columns dat) \<inter> set (value_columns s) = {}"
        using Cons.prems(5) s by simp
      ultimately show "set (columns (merge_outer dat rawdat)) \<inter> set (value_columns s) = {}"
        unfolding c by auto
    qed
  qed
  then show ?case using c by simp
qed

lemma set_tl_subset: "set (tl xs) \<subseteq> set xs"
  by (cases xs) auto

lemma process_interval_columns:
  assumes "distinct (site_names self)" and "set (site_names self) \<subseteq> set (map fst final_headers)"
      and "process_interval self fs st dfts = Inr (dat, written, st')"
      and "\<forall>site\<in>set (site_names self). \<forall>e rawdat e'. map_of st site = Some e \<longrightarrow>
             assemble self fs dfts site e = Inr (rawdat, e') \<longrightarrow>
             columns rawdat = value_columns site"
  shows "columns dat = concat (map value_columns (site_names self))
       \<and> columns written = tl (concat (map value_columns (site_names self)))"
proof -
  let ?dat0 = "\<lparr>index = desired_time_index self dfts, cols = []\<rparr>"
  let ?all = "concat (map value_columns (site_names self))"
  from assms(3) obtain
    l: "sites_loop self fs dfts (site_names self) ?dat0 st = Inr (dat, st')" and
    w: "getitem_list (tl (columns dat)) dat = Inr written"
    by (auto simp: process_interval_def split: if_splits sum.splits)
  have "columns dat = columns ?dat0 @ ?all"
    using sites_loop_columns [OF assms(1,2) l assms(4)] by (simp add: columns_def)
  then have c: "columns dat = ?all" by (simp add: columns_def)
  have d: "distinct (columns dat)"
    unfolding c using assms(1,2) by (rule distinct_concat_value_columns)
  have "set (tl (columns dat)) \<subseteq> set (columns dat)" by (rule set_tl_subset)
  from getitem_list_distinct [OF d this] w
  have "columns written = tl (columns dat)" by (auto simp: columns_def comp_def)
  with c show ?thesis by simp
qed

lemma assemble_on_axis:
  "case assemble engine_1hz [(sf4_path, sf4_file 1577836801000 1577836802000)]
          1577836800000 ''SF4'' sf4_state of
     Inr (rawdat, e') \<Rightarrow> index rawdat = [1577836801000, 1577836802000]
                        \<and> columns rawdat = value_columns ''SF4''
   | Inl er \<Rightarrow> False"
  by code_simp

lemma axis_1hz:
  "set [1577836801000, 1577836802000] \<subseteq> set (desired_time_index engine_1hz 1577836800000)"
  by code_simp

lemma run_on_axis:
  "\<not> isl (process_interval engine_1hz [(sf4_path, sf4_file 1577836801000 1577836802000)]
             site_states_1hz 1577836800000)"
  by code_simp

theorem process_interval_row_count_witness:
  "0 < acq_period engine_1hz \<and> distinct (site_names engine_1hz)
   \<and> \<not> isl (process_interval engine_1hz [(sf4_path, sf4_file 1577836801000 1577836802000)]
               site_states_1hz 1577836800000)
   \<and> nrows (fst (projr (process_interval engine_1hz
               [(sf4_path, sf4_file 1577836801000 1577836802000)]
               site_states_1hz 1577836800000))) = 60"
proof -
  let ?fs = "[(sf4_path, sf4_file 1577836801000 1577836802000)]"
  let ?run = "process_interval engine_1hz ?fs site_states_1hz 1577836800000"
  have h1: "0 < acq_period engine_1hz" by (simp add: acq_period_def engine_1hz_def)
  have h2: "distinct (site_names engine_1hz)" by (simp add: engine_1hz_def)
  obtain dat written st' where r: "?run = Inr (dat, written, st')"
    using run_on_axis by (cases ?run) auto
  have ok: "\<forall>site\<in>set (site_names engine_1hz). \<forall>e rawdat e'.
             map_of site_states_1hz site = Some e \<longrightarrow>
             assemble engine_1hz ?fs 1577836800000 site e = Inr (rawdat, e') \<longrightarrow>
             distinct (index rawdat)
             \<and> set (index rawdat) \<subseteq> set (desired_time_index engine_1hz 1577836800000)"
  proof (intro ballI allI impI)
    fix site e rawdat e'
    assume "site \<in> set (site_names engine_1hz)" and m: "map_of site_states_1hz site = Some e"
      and a: "assemble engine_1hz ?fs 1577836800000 site e = Inr (rawdat, e')"
    then have "site = ''SF4''" by (simp add: engine_1hz_def)
    with m have "e = sf4_state" by (simp add: site_states_1hz_def)
    with a \<open>site = ''SF4''\<close> assemble_on_axis
    have "index rawdat = [1577836801000, 1577836802000]" by simp
    with axis_1hz show "distinct (index rawdat)
        \<and> set (index rawdat) \<subseteq> set (desired_time_index engine_1hz 1577836800000)"
      by simp
  qed
  from process_interval_row_count [OF h1 h2 r ok]
  have "int (nrows dat) = n_records engine_1hz" by simp
  then have "nrows dat = 60" by (simp add: n_records_def engine_1hz_def)
  with h1 h2 run_on_axis r show ?thesis by simp
qed

text \<open>
  Claim C1 as stated fails.  At 1 Hz with intervals of one minute (\<open>n_records = 60\<close>) the
  merged frame has 61 rows when the raw file of the interval holds a record stamped one second
  after the end of the interval, and also when no file is found: the second row of the
  placeholder is 100 ms after the first, which is not on the desired time index.
\<close>

theorem process_interval_row_count_counterexample:
  "n_records engine_1hz = 60
   \<and> (case process_interval engine_1hz [(sf4_path, sf4_file 1577836860000 1577836861000)]
             site_states_1hz 1577836800000 of
        Inr (dat, written, st') \<Rightarrow> nrows dat = 61
      | Inl er \<Rightarrow> False)
   \<and> (case process_interval engine_1hz []
             [(''SF4'', \<lparr>fns_temp = [], file_tss_temp = [], rawfile_metadata = [], ifile = 0\<rparr>)]
             1577836800000 of
        Inr (dat, written, st') \<Rightarrow> nrows dat = 61
      | Inl er \<Rightarrow> False)"
  by code_simp

text \<open>
  Claim C7: the table written for an interval should hold every value column of the final
  headers of the sites.  It does not: TIMESTAMP is the index of the merged frame, so
  \<open>dat.columns[1:]\<close> leaves out the first value column.  (In general, by
  \<open>process_interval_columns\<close>, the written columns are the merged columns without their
  first.)  For a run at 1 Hz for the site SF4 with one raw file of two records, the merged
  frame has the eleven value columns of SF4 and the written table lacks \<open>Ux_SON_SF4\<close>.
\<close>

theorem process_interval_drops_first_column:
  "case process_interval engine_1hz [(sf4_path, sf4_file 1577836801000 1577836802000)]
          site_states_1hz 1577836800000 of
     Inr (dat, written, st') \<Rightarrow>
       columns dat
         = [''Ux_SON_SF4'', ''Uy_SON_SF4'', ''Uz_SON_SF4'', ''Ts_SON_SF4'', ''CO2_IRGA_SF4'',
            ''H2O_IRGA_SF4'', ''PCELL_IRGA_SF4'', ''TCELL_IRGA_SF4'', ''DIAG_SON_SF4'',
            ''flag_SON_SF4'', ''DIAG_IRGA_SF4'']
       \<and> columns written
         = [''Uy_SON_SF4'', ''Uz_SON_SF4'', ''Ts_SON_SF4'', ''CO2_IRGA_SF4'', ''H2O_IRGA_SF4'',
            ''PCELL_IRGA_SF4'', ''TCELL_IRGA_SF4'', ''DIAG_SON_SF4'', ''flag_SON_SF4'',
            ''DIAG_IRGA_SF4'']
       \<and> ''Ux_SON_SF4'' \<notin> set (columns written)
   | Inl er \<Rightarrow> False"
  by code_simp

lemma setitem_stats_Inr:
  assumes "setitem_stats arr i s c vals = Inr arr1"
  shows "shape arr1 = shape arr"
    and "item arr1 i k s c = (if k < length vals then vals ! k else item arr i k s c)"
    and "(i', s', c') \<noteq> (i, s, c) \<Longrightarrow> item arr1 i' k s' c' = item arr i' k s' c'"
  using assms
  by (auto simp: setitem_stats_def split: prod.splits if_splits)

lemma column_stats_Inr:
  assumes "column_stats self col = Inr vals"
  shows "vals = [nanmean col, nanmax col, nanmin col, nanstd col, npc self col]"
    and "col \<noteq> []" and "\<forall>x\<in>set col. x = NaN \<or> (\<exists>r. x = Num r)"
proof -
  from assms have a: "col \<noteq> []"
    and b: "\<not> list_ex (\<lambda>x. case x of Stamp t \<Rightarrow> True | _ \<Rightarrow> False) col"
    and c: "vals = [nanmean col, nanmax col, nanmin col, nanstd col, npc self col]"
    by (auto simp: column_stats_def split: if_splits)
  show "vals = [nanmean col, nanmax col, nanmin col, nanstd col, npc self col]" by (rule c)
  show "col \<noteq> []" by (rule a)
  show "\<forall>x\<in>set col. x = NaN \<or> (\<exists>r. x = Num r)"
  proof
    fix x assume "x \<in> set col"
    with b have "\<not> (case x of Stamp t \<Rightarrow> True | _ \<Rightarrow> False)" by (auto simp: list_ex_iff)
    then show "x = NaN \<or> (\<exists>r. x = Num r)" by (cases x) auto
  qed
qed

lemma summary_loop_keeps:
  assumes "summary_loop self dat idfts names arr = Inr arr'"
      and "\<forall>n\<in>set names. n \<noteq> [] \<and> hd n \<in> set ''UTCHPF'' \<longrightarrow> summary_target self n \<noteq> Inr (s, c)"
  shows "item arr' i k s c = item arr i k s c \<and> shape arr' = shape arr"
  using assms
proof (induction names arbitrary: arr)
  case Nil
  then show ?case by simp
next
  case (Cons colname rest)
  show ?case
  proof (cases "colname \<noteq> [] \<and> hd colname \<in> set ''UTCHPF''")
    case False
    with Cons.prems(1) have "summary_loop self dat idfts rest arr = Inr arr'"
      by (auto split: list.splits if_splits)
    with Cons.IH Cons.prems(2) show ?thesis by simp
  next
    case True
    with Cons.prems(1) obtain col vals s1 c1 arr1 where
      t: "summary_target self colname = Inr (s1, c1)" and
      u: "setitem_stats arr idfts s1 c1 vals = Inr arr1" and
      l: "summary_loop self dat idfts rest arr1 = Inr arr'"
      by (auto split: list.splits if_splits option.splits sum.splits)
    from Cons.prems(2) True t have ne: "(s1, c1) \<noteq> (s, c)" by auto
    then have "item arr1 i k s c = item arr i k s c"
      using setitem_stats_Inr(3) [OF u, of i s c k] by auto
    moreover have "shape arr1 = shape arr" by (rule setitem_stats_Inr(1) [OF u])
    moreover have "item arr' i k s c = item arr1 i k s c \<and> shape arr' = shape arr1"
      using Cons.IH [OF l] Cons.prems(2) by simp
    ultimately show ?thesis by simp
  qed
qed

lemma summary_loop_item:
  assumes "summary_loop self dat idfts names arr = Inr arr'"
      and "distinct (map (summary_target self) (filter (\<lambda>n. n \<noteq> [] \<and> hd n \<in> set ''UTCHPF'') names))"
      and "colname \<in> set names" and "hd colname \<in> set ''UTCHPF''"
  shows "\<exists>col s c. map_of (cols dat) colname = Some col
           \<and> col \<noteq> [] \<and> (\<forall>x\<in>set col. x = NaN \<or> (\<exists>r. x = Num r))
           \<and> summary_target self colname = Inr (s, c)
           \<and> (\<forall>k<5. item arr' idfts k s c
                       = [nanmean col, nanmax col, nanmin col, nanstd col, npc self col] ! k)"
proof -
  define P where "P = (\<lambda>n::string. n \<noteq> [] \<and> hd n \<in> set ''UTCHPF'')"
  have step: "\<And>n rest arr. \<not> P n \<Longrightarrow> summary_loop self dat idfts (n # rest) arr = Inr arr' \<Longrightarrow>
                summary_loop self dat idfts rest arr = Inr arr'"
    unfolding P_def by (auto split: list.splits if_splits)
  have step': "\<And>n rest arr. P n \<Longrightarrow> summary_loop self dat idfts (n # rest) arr = Inr arr' \<Longrightarrow>
       \<exists>col vals s1 c1 arr1. map_of (cols dat) n = Some col \<and> column_stats self col = Inr vals
          \<and> summary_target self n = Inr (s1, c1) \<and> setitem_stats arr idfts s1 c1 vals = Inr arr1
          \<and> summary_loop self dat idfts rest arr1 = Inr arr'"
    unfolding P_def by (auto split: list.splits if_splits option.splits sum.splits)
  have keeps: "\<And>rest arr1 s c k. summary_loop self dat idfts rest arr1 = Inr arr' \<Longrightarrow>
       \<forall>n\<in>set rest. P n \<longrightarrow> summary_target self n \<noteq> Inr (s, c) \<Longrightarrow>
       item arr' idfts k s c = item arr1 idfts k s c"
    unfolding P_def using summary_loop_keeps by blast
  have pc: "P colname"
    using assms(1,3,4) unfolding P_def
  proof (induction names arbitrary: arr)
    case Nil
    then show ?case by simp
  next
    case (Cons n rest)
    show ?case
    proof (cases "colname = n")
      case True
      with Cons.prems(1) have "n \<noteq> []" by (auto split: list.splits)
      with True Cons.prems(3) show ?thesis by simp
    next
      case False
      with Cons.prems(2) have "colname \<in> set rest" by simp
      moreover from Cons.prems(1) obtain arr1 where "summary_loop self dat idfts rest arr1 = Inr arr'"
        by (auto split: list.splits if_splits option.splits sum.splits)
      ultimately show ?thesis using Cons.IH Cons.prems(3) by blast
    qed
  qed
  have "distinct (map (summary_target self) (filter P names))"
    using assms(2) unfolding P_def .
  with assms(1,3) show ?thesis
  proof (induction names arbitrary: arr)
    case Nil
    then show ?case by simp
  next
    case (Cons n rest)
    show ?case
    proof (cases "P n")
      case False
      from step [OF False Cons.prems(1)] have l: "summary_loop self dat idfts rest arr = Inr arr'" .
      from False pc Cons.prems(2) have "colname \<in> set rest" by auto
      moreover have "distinct (map (summary_target self) (filter P rest))"
        using Cons.prems(3) False by simp
      ultimately show ?thesis using Cons.IH [OF l] by blast
    next
      case True
      from step' [OF True Cons.prems(1)] obtain col vals s1 c1 arr1 where
        m: "map_of (cols dat) n = Some col" and
        cs: "column_stats self col = Inr vals" and
        t: "summary_target self n = Inr (s1, c1)" and
        u: "setitem_stats arr idfts s1 c1 vals = Inr arr1" and
        l: "summary_loop self dat idfts rest arr1 = Inr arr'"
        by blast
      from Cons.prems(3) True have d: "summary_target self n \<notin>
            set (map (summary_target self) (filter P rest))"
        and d': "distinct (map (summary_target self) (filter P rest))"
        by auto
      show ?thesis
      proof (cases "colname = n")
        case True
        have "\<forall>n'\<in>set rest. P n' \<longrightarrow> summary_target self n' \<noteq> Inr (s1, c1)"
        proof (intro ballI impI notI)
          fix n' assume "n' \<in> set rest" "P n'" "summary_target self n' = Inr (s1, c1)"
          then have "summary_target self n \<in> set (map (summary_target self) (filter P rest))"
            using t by force
          with d show False by simp
        qed
        from keeps [OF l this]
        have k: "\<And>k. item arr' idfts k s1 c1 = item arr1 idfts k s1 c1" by simp
        note v = column_stats_Inr [OF cs]
        have "\<forall>k<5. item arr' idfts k s1 c1
                   = [nanmean col, nanmax col, nanmin col, nanstd col, npc self col] ! k"
          using k setitem_stats_Inr(2) [OF u] v(1) by simp
        with m t v True show ?thesis by blast
      next
        case False
        with Cons.prems(2) have "colname \<in> set rest" by simp
        from Cons.IH [OF l this d'] show ?thesis .
      qed
    qed
  qed
qed



lemma summary_loop_returns:
  assumes "shape arr = (nt, 5, ns, nc)" and "idfts < nt"
      and "\<forall>n\<in>set names. n \<noteq> [] \<and> (hd n \<in> set ''UTCHPF'' \<longrightarrow>
             (\<exists>col s c. map_of (cols dat) n = Some col \<and> col \<noteq> []
                 \<and> (\<forall>x\<in>set col. x = NaN \<or> (\<exists>r. x = Num r))
                 \<and> summary_target self n = Inr (s, c) \<and> s < ns \<and> c < nc))"
  shows "\<exists>arr'. summary_loop self dat idfts names arr = Inr arr'"
  using assms
proof (induction names arbitrary: arr)
  case Nil
  then show ?case by simp
next
  case (Cons n rest)
  have "n \<in> set (n # rest)" by simp
  with Cons.prems(3) have okn: "n \<noteq> [] \<and> (hd n \<in> set ''UTCHPF'' \<longrightarrow>
             (\<exists>col s c. map_of (cols dat) n = Some col \<and> col \<noteq> []
                 \<and> (\<forall>x\<in>set col. x = NaN \<or> (\<exists>r. x = Num r))
                 \<and> summary_target self n = Inr (s, c) \<and> s < ns \<and> c < nc))"
    by (rule bspec)
  have okr: "\<forall>n\<in>set rest. n \<noteq> [] \<and> (hd n \<in> set ''UTCHPF'' \<longrightarrow>
             (\<exists>col s c. map_of (cols dat) n = Some col \<and> col \<noteq> []
                 \<and> (\<forall>x\<in>set col. x = NaN \<or> (\<exists>r. x = Num r))
                 \<and> summary_target self n = Inr (s, c) \<and> s < ns \<and> c < nc))"
  proof
    fix m assume "m \<in> set rest"
    then have "m \<in> set (n # rest)" by simp
    with Cons.prems(3) show "m \<noteq> [] \<and> (hd m \<in> set ''UTCHPF'' \<longrightarrow>
             (\<exists>col s c. map_of (cols dat) m = Some col \<and> col \<noteq> []
                 \<and> (\<forall>x\<in>set col. x = NaN \<or> (\<exists>r. x = Num r))
                 \<and> summary_target self m = Inr (s, c) \<and> s < ns \<and> c < nc))"
      by (rule bspec)
  qed
  from okn have "n \<noteq> []" by (rule conjunct1)
  then obtain ch tl_n where n: "n = ch # tl_n" by (cases n) simp_all
  show ?case
  proof (cases "ch \<in> set ''UTCHPF''")
    case False
    have "summary_loop self dat idfts (n # rest) arr = summary_loop self dat idfts rest arr"
      unfolding n using False by (simp only: summary_loop.simps list.case if_False)
    moreover have "\<exists>arr'. summary_loop self dat idfts rest arr = Inr arr'"
      using Cons.prems(1) Cons.prems(2) okr by (rule Cons.IH)
    ultimately show ?thesis by (simp only:)
  next
    case True
    then have "hd n \<in> set ''UTCHPF''" unfolding n by (simp only: list.sel)
    with okn [THEN conjunct2] have "\<exists>col s c. map_of (cols dat) n = Some col \<and> col \<noteq> []
                 \<and> (\<forall>x\<in>set col. x = NaN \<or> (\<exists>r. x = Num r))
                 \<and> summary_target self n = Inr (s, c) \<and> s < ns \<and> c < nc"
      by (rule mp)
    then obtain col s c where
      m: "map_of (cols dat) n = Some col" and ne: "col \<noteq> []" and
      v: "\<forall>x\<in>set col. x = NaN \<or> (\<exists>r. x = Num r)" and
      t: "summary_target self n = Inr (s, c)" and b: "s < ns" "c < nc"
      by blast
    have "\<not> list_ex (\<lambda>x. case x of Stamp t \<Rightarrow> True | _ \<Rightarrow> False) col"
      using v by (auto simp: list_ex_iff)
    then have cs: "column_stats self col
        = Inr [nanmean col, nanmax col, nanmin col, nanstd col, npc self col]"
      using ne by (simp add: column_stats_def)
    obtain arr1 where u: "setitem_stats arr idfts s c
          [nanmean col, nanmax col, nanmin col, nanstd col, npc self col] = Inr arr1"
      and sh: "shape arr1 = (nt, 5, ns, nc)"
      using Cons.prems(1,2) b by (simp add: setitem_stats_def)
    have "summary_loop self dat idfts (n # rest) arr = summary_loop self dat idfts rest arr1"
      unfolding n using True m [unfolded n] cs t [unfolded n] u
      by (simp only: summary_loop.simps list.case if_True option.case sum.case prod.case)
    moreover have "\<exists>arr'. summary_loop self dat idfts rest arr1 = Inr arr'"
      using sh Cons.prems(2) okr by (rule Cons.IH)
    ultimately show ?thesis by (simp only:)
  qed
qed



lemma numbers_replicate_NaN: "numbers (replicate n NaN) = []"
  by (induction n) (simp_all add: numbers_def)

lemma update_summary_returns:
  assumes sh: "shape arr = (nt, 5, ns, nc)" and i: "idfts < nt"
      and s: "summarisable self ns nc dat"
  shows "\<exists>arr'. update_summary self dat arr idfts = Inr arr'"
proof -
  define S where "S = set ''UTCHPF''"
  from s have t: "\<forall>n\<in>set (columns dat). n \<noteq> [] \<and> (hd n \<in> S \<longrightarrow>
                 (case summary_target self n of Inr (s, c) \<Rightarrow> s < ns \<and> c < nc | Inl e \<Rightarrow> False))"
    and v: "\<forall>p\<in>set (cols dat). snd p \<noteq> []
               \<and> (\<forall>x\<in>set (snd p). case x of Stamp t \<Rightarrow> False | _ \<Rightarrow> True)"
    unfolding summarisable_def S_def list_all_iff by blast+
  have "\<forall>n\<in>set (columns dat). n \<noteq> [] \<and> (hd n \<in> S \<longrightarrow>
             (\<exists>col s c. map_of (cols dat) n = Some col \<and> col \<noteq> []
                 \<and> (\<forall>x\<in>set col. x = NaN \<or> (\<exists>r. x = Num r))
                 \<and> summary_target self n = Inr (s, c) \<and> s < ns \<and> c < nc))"
  proof (intro ballI conjI impI)
    fix n assume n: "n \<in> set (columns dat)"
    with t show "n \<noteq> []" by blast
    assume h: "hd n \<in> S"
    with t n have c: "case summary_target self n of Inr (s, c) \<Rightarrow> s < ns \<and> c < nc | Inl e \<Rightarrow> False"
      by blast
    then obtain s c where tg: "summary_target self n = Inr (s, c)" and b: "s < ns" "c < nc"
      by (cases "summary_target self n") auto
    from n obtain col where m: "map_of (cols dat) n = Some col"
      unfolding columns_def by (metis map_of_eq_None_iff not_None_eq set_map)
    then have "(n, col) \<in> set (cols dat)" by (rule map_of_SomeD)
    with v have ne: "col \<noteq> []" and ns': "\<forall>x\<in>set col. case x of Stamp t \<Rightarrow> False | _ \<Rightarrow> True"
      by force+
    have "\<forall>x\<in>set col. x = NaN \<or> (\<exists>r. x = Num r)"
    proof
      fix x assume "x \<in> set col"
      with ns' have "case x of Stamp t \<Rightarrow> False | _ \<Rightarrow> True" by blast
      then show "x = NaN \<or> (\<exists>r. x = Num r)" by (cases x) auto
    qed
    with m ne tg b show "\<exists>col s c. map_of (cols dat) n = Some col \<and> col \<noteq> []
                 \<and> (\<forall>x\<in>set col. x = NaN \<or> (\<exists>r. x = Num r))
                 \<and> summary_target self n = Inr (s, c) \<and> s < ns \<and> c < nc"
      by blast
  qed
  then show ?thesis
    unfolding update_summary_def S_def by (rule summary_loop_returns [OF sh i])
qed

lemma template_shape:
  "shape (summary_template self n) = (n, 5, length (summary_sites self), 9)"
  by (simp add: summary_template_def summary_cols_def)

lemma example_sites:
  "length (summary_sites engine_1hz) = 1" "length (summary_sites engine_nf17) = 2"
  "n_records engine_1hz = 60"
  by code_simp+




lemma nf17_run_columns:
  "case nf17_run of
     Inr (dat, written, st') \<Rightarrow>
       summarisable engine_nf17 2 9 dat
       \<and> distinct (map (summary_target engine_nf17)
                    (filter (\<lambda>n. n \<noteq> [] \<and> hd n \<in> set ''UTCHPF'') (columns dat)))
       \<and> ''Ux_CSAT3_NF7'' \<in> set (columns dat)
       \<and> map_of (cols dat) ''Ux_CSAT3_NF7'' = Some (replicate 61 NaN)
   | Inl er \<Rightarrow> False"
  by code_simp




lemma Max_upt: "0 < n \<Longrightarrow> Max (set [0..<n]) + 1 = n"
proof -
  assume "0 < n"
  then have "Max (set [0..<n]) = n - 1"
    by (intro Max_eqI) auto
  with \<open>0 < n\<close> show ?thesis by simp
qed

lemma nf7_no_site: "''NF7'' \<notin> set (map fst final_headers)"
  by code_simp

lemma summary_sites_nf17:
  assumes "''NF17'' \<in> set (site_names self)" and "''NF7'' \<notin> set (site_names self)"
  shows "summary_site_coords self = site_names self @ [''NF7'']"
    and "map_of (summary_sites self) ''NF7'' = Some (length (site_names self))"
    and "length (summary_sites self) = length (site_names self) + 1"
proof -
  define d where "d = map (\<lambda>p. (snd p, fst p)) (enumerate 0 (site_names self))"
  have k: "map fst d = site_names self" and v: "map snd d = [0..<length (site_names self)]"
    unfolding d_def by (simp_all add: comp_def)
  have pos: "0 < length (site_names self)" using assms(1) by (cases "site_names self") auto
  have m: "Max (set (map snd d)) + 1 = length (site_names self)"
    unfolding v using pos by (rule Max_upt)
  have mem: "''NF17'' \<in> set (map fst d)" unfolding k by (rule assms(1))
  have s: "summary_sites self = AList.update ''NF7'' (length (site_names self)) d"
    unfolding summary_sites_def Let_def d_def [symmetric] using mem m by (simp only: if_True)
  have "map fst (summary_sites self) = site_names self @ [''NF7'']"
    unfolding s using assms(2) k by (simp add: update_keys)
  then show "summary_site_coords self = site_names self @ [''NF7'']"
    by (simp add: summary_site_coords_def)
  then have "length (map fst (summary_sites self)) = length (site_names self) + 1"
    by (simp add: summary_site_coords_def)
  then show "length (summary_sites self) = length (site_names self) + 1" by simp
  show "map_of (summary_sites self) ''NF7'' = Some (length (site_names self))"
    unfolding s by (simp add: update_conv')
qed

lemma summary_sites_plain:
  assumes "''NF17'' \<notin> set (site_names self)"
  shows "summary_site_coords self = site_names self"
    and "length (summary_sites self) = length (site_names self)"
proof -
  define d where "d = map (\<lambda>p. (snd p, fst p)) (enumerate 0 (site_names self))"
  have k: "map fst d = site_names self"
    unfolding d_def by (simp add: comp_def)
  have mem: "''NF17'' \<notin> set (map fst d)" unfolding k by (rule assms)
  have s: "summary_sites self = d"
    unfolding summary_sites_def Let_def d_def [symmetric] using mem by (simp only: if_False)
  show "summary_site_coords self = site_names self"
    by (simp add: summary_site_coords_def s k)
  show "length (summary_sites self) = length (site_names self)"
    unfolding s d_def by simp
qed

lemma nf17_facts:
  "set (site_names engine_nf17) \<subseteq> set (map fst final_headers)"
  "set (site_names engine_1hz) \<subseteq> set (map fst final_headers)"
  "last (py_split ''_'' ''Ux_CSAT3_NF7'') = ''NF7''"
  "hd (py_split ''_'' ''Ux_CSAT3_NF7'') = ''Ux''"
  "n_records engine_nf17 = 60"
  "map_of summary_cols ''Ux'' = Some 0"
  by code_simp+

text \<open>
  Claim C10.  The sites of a run are keys of the final headers (the constructor looks each
  one up).  When NF17 is one of them, the axis SITE of the summary is the list of the sites
  followed by NF7, the array has one layer more than there are sites, and the statistics of a
  summarised column whose label ends with the segment NF7 are stored in that last layer
  (under the hypotheses of \<open>update_summary\<close> returning and of no two summarised columns
  sharing a place).  Without NF17 the axis SITE is the list of the sites.
\<close>

theorem summary_nf7_layer:
  assumes "set (site_names self) \<subseteq> set (map fst final_headers)"
  shows "(''NF17'' \<in> set (site_names self) \<longrightarrow>
            summary_site_coords self = site_names self @ [''NF7'']
            \<and> shape (summary_template self n) = (n, 5, length (site_names self) + 1, 9)
            \<and> (update_summary self dat summary_arr idfts = Inr arr'
               \<and> distinct (map (summary_target self)
                             (filter (\<lambda>n. n \<noteq> [] \<and> hd n \<in> set ''UTCHPF'') (columns dat)))
               \<and> colname \<in> set (columns dat) \<and> hd colname \<in> set ''UTCHPF''
               \<and> last (py_split ''_'' colname) = ''NF7'' \<longrightarrow>
               (\<exists>col c. map_of (cols dat) colname = Some col
                  \<and> map_of summary_cols (hd (py_split ''_'' colname)) = Some c
                  \<and> (\<forall>k<5. item arr' idfts k (length (site_names self)) c
                         = [nanmean col, nanmax col, nanmin col, nanstd col, npc self col] ! k))))
       \<and> (''NF17'' \<notin> set (site_names self) \<longrightarrow>
            summary_site_coords self = site_names self
            \<and> shape (summary_template self n) = (n, 5, length (site_names self), 9))"
proof (intro conjI impI)
  assume "''NF17'' \<notin> set (site_names self)"
  then show "summary_site_coords self = site_names self"
    and "shape (summary_template self n) = (n, 5, length (site_names self), 9)"
    by (simp_all add: summary_sites_plain template_shape)
next
  assume nf17: "''NF17'' \<in> set (site_names self)"
  have nf7: "''NF7'' \<notin> set (site_names self)" using assms nf7_no_site by blast
  note f = summary_sites_nf17 [OF nf17 nf7]
  show "summary_site_coords self = site_names self @ [''NF7'']" by (rule f(1))
  show "shape (summary_template self n) = (n, 5, length (site_names self) + 1, 9)"
    by (simp add: template_shape f(3))
  assume a: "update_summary self dat summary_arr idfts = Inr arr'
               \<and> distinct (map (summary_target self)
                             (filter (\<lambda>n. n \<noteq> [] \<and> hd n \<in> set ''UTCHPF'') (columns dat)))
               \<and> colname \<in> set (columns dat) \<and> hd colname \<in> set ''UTCHPF''
               \<and> last (py_split ''_'' colname) = ''NF7''"
  then have l: "summary_loop self dat idfts (columns dat) summary_arr = Inr arr'"
    and d: "distinct (map (summary_target self)
                             (filter (\<lambda>n. n \<noteq> [] \<and> hd n \<in> set ''UTCHPF'') (columns dat)))"
    and m: "colname \<in> set (columns dat)" and h: "hd colname \<in> set ''UTCHPF''"
    and e: "last (py_split ''_'' colname) = ''NF7''"
    unfolding update_summary_def by blast+
  from summary_loop_item [OF l d m h] obtain col s c where
    mc: "map_of (cols dat) colname = Some col" and
    t: "summary_target self colname = Inr (s, c)" and
    i: "\<forall>k<5. item arr' idfts k s c
                 = [nanmean col, nanmax col, nanmin col, nanstd col, npc self col] ! k"
    by blast
  from t have "s = length (site_names self)"
    and "map_of summary_cols (hd (py_split ''_'' colname)) = Some c"
    unfolding summary_target_def e f(2) by (auto split: option.splits)
  with mc i show "\<exists>col c. map_of (cols dat) colname = Some col
                  \<and> map_of summary_cols (hd (py_split ''_'' colname)) = Some c
                  \<and> (\<forall>k<5. item arr' idfts k (length (site_names self)) c
                         = [nanmean col, nanmax col, nanmin col, nanstd col, npc self col] ! k)"
    by blast
qed

theorem summary_nf7_layer_witness:
  "set (site_names engine_nf17) \<subseteq> set (map fst final_headers)
   \<and> ''NF17'' \<in> set (site_names engine_nf17)
   \<and> summary_site_coords engine_nf17 = [''NF17'', ''NF7'']
   \<and> shape (summary_template engine_nf17 1) = (1, 5, 2, 9)
   \<and> (case nf17_run of
        Inr (dat, written, st') \<Rightarrow>
          (case update_summary engine_nf17 dat (summary_template engine_nf17 1) 0 of
             Inr arr' \<Rightarrow>
               ''Ux_CSAT3_NF7'' \<in> set (columns dat)
               \<and> last (py_split ''_'' ''Ux_CSAT3_NF7'') = ''NF7''
               \<and> map_of (cols dat) ''Ux_CSAT3_NF7'' = Some (replicate 61 NaN)
               \<and> item arr' 0 4 1 0 = Num 100
           | Inl er \<Rightarrow> False)
      | Inl er \<Rightarrow> False)
   \<and> set (site_names engine_1hz) \<subseteq> set (map fst final_headers)
   \<and> ''NF17'' \<notin> set (site_names engine_1hz)
   \<and> summary_site_coords engine_1hz = [''SF4'']
   \<and> shape (summary_template engine_1hz 1) = (1, 5, 1, 9)"
proof -
  let ?T = "summary_template engine_nf17 1"
  obtain dat written st' where r: "nf17_run = Inr (dat, written, st')"
    using nf17_run_columns by (auto split: sum.splits)
  note f = nf17_run_columns [unfolded r sum.case prod.case]
  note s = f [THEN conjunct1]
  note d = f [THEN conjunct2, THEN conjunct1]
  note m = f [THEN conjunct2, THEN conjunct2, THEN conjunct1]
  note ux = f [THEN conjunct2, THEN conjunct2, THEN conjunct2]
  have sh: "shape ?T = (1, 5, 2, 9)" by (simp add: template_shape example_sites)
  obtain arr' where u: "update_summary engine_nf17 dat ?T 0 = Inr arr'"
    using update_summary_returns [OF sh _ s] by auto
  have i1: "''NF17'' \<in> set (site_names engine_nf17)" by (simp add: engine_nf17_def)
  have i2: "''NF17'' \<notin> set (site_names engine_1hz)" by (simp add: engine_1hz_def)
  have h: "hd ''Ux_CSAT3_NF7'' \<in> set ''UTCHPF''" by simp
  note w1 = summary_nf7_layer [OF nf17_facts(1), of 1 dat ?T 0 arr' "''Ux_CSAT3_NF7''",
      THEN conjunct1, rule_format, OF i1]
  note w2 = summary_nf7_layer [OF nf17_facts(2), of 1 dat ?T 0 arr' "''Ux_CSAT3_NF7''",
      THEN conjunct2, rule_format, OF i2]
  have c1: "summary_site_coords engine_nf17 = [''NF17'', ''NF7'']"
    using w1 [THEN conjunct1] by (simp add: engine_nf17_def)
  have c2: "summary_site_coords engine_1hz = [''SF4'']"
    and c3: "shape (summary_template engine_1hz 1) = (1, 5, 1, 9)"
    using w2 by (simp_all add: engine_1hz_def)
  from w1 [THEN conjunct2, THEN conjunct2, rule_format, OF conjI [OF u conjI [OF d conjI [OF m conjI [OF h nf17_facts(3)]]]]]
  obtain col c where "map_of (cols dat) ''Ux_CSAT3_NF7'' = Some col"
    and "map_of summary_cols (hd (py_split ''_'' ''Ux_CSAT3_NF7'')) = Some c"
    and "\<forall>k<5. item arr' 0 k (length (site_names engine_nf17)) c
                 = [nanmean col, nanmax col, nanmin col, nanstd col, npc engine_nf17 col] ! k"
    by blast
  with ux have "item arr' 0 4 1 0 = npc engine_nf17 (replicate 61 NaN)"
    by (simp add: nf17_facts engine_nf17_def)
  then have c4: "item arr' 0 4 1 0 = Num 100"
    by (simp add: npc_def numbers_replicate_NaN nf17_facts)
  show ?thesis
    unfolding r u sum.case prod.case
    using nf17_facts(1,2,3) i1 i2 c1 c2 c3 c4 sh m ux by simp
qed

end
